theory Spec2Isabelle
  imports Complex_Main "HOL-Library.FSet"
begin

section \<open>Automation controller: the job registry (automation.py)\<close>

text \<open>
  A job is the dict built by \<open>start_crawler_job\<close>, \<open>start_monitor_job\<close> and
  \<open>start_expansion_job\<close>. Its \<open>status\<close> is one of four string constants; \<open>result\<close>
  is \<open>None\<close>, the value returned by the controller that ran, or the message dict
  written by \<open>cancel_job\<close>. The fields \<open>error\<close> and \<open>completed_at\<close> are absent from
  the dict until a worker writes them.
\<close>

datatype job_kind = Crawler | Monitor | Expansion

datatype job_status = Started | Completed | Failed | Cancelled

datatype 'r job_result = NoResult | RunResult 'r | CancelMessage

record 'r job =
  job_id :: string
  job_type :: job_kind
  status :: job_status
  result :: "'r job_result"
  job_error :: "string option"
  started_at :: int
  completed_at :: "int option"

type_synonym 'r registry = "string \<rightharpoonup> 'r job"

text \<open>The job dict as the three \<open>start_*_job\<close> methods create it.\<close>

definition new_job :: "string \<Rightarrow> job_kind \<Rightarrow> int \<Rightarrow> 'r job" where
  "new_job jid k now =
     \<lparr>job_id = jid, job_type = k, status = Started, result = NoResult,
      job_error = None, started_at = now, completed_at = None\<rparr>"

definition register_job :: "'r registry \<Rightarrow> string \<Rightarrow> job_kind \<Rightarrow> int \<Rightarrow> 'r registry" where
  "register_job reg jid k now = reg(jid \<mapsto> new_job jid k now)"

text \<open>\<open>get_job_status\<close> is \<open>self.active_jobs.get(job_id)\<close>.\<close>

definition get_job_status :: "'r registry \<Rightarrow> string \<Rightarrow> 'r job option" where
  "get_job_status reg jid = reg jid"

text \<open>
  \<open>cancel_job\<close>: false for an unknown id; a \<open>started\<close> job gets status \<open>cancelled\<close>
  and the message as its result, and the call returns true; any other status leaves the
  registry as it is and returns false.
\<close>

definition cancel_job :: "'r registry \<Rightarrow> string \<Rightarrow> bool \<times> 'r registry" where
  "cancel_job reg jid =
     (case reg jid of
        None \<Rightarrow> (False, reg)
      | Some job \<Rightarrow>
          if status job = Started
          then (True, reg(jid \<mapsto> job\<lparr>status := Cancelled, result := CancelMessage\<rparr>))
          else (False, reg))"

text \<open>
  The three worker bodies \<open>_run_crawler_thread\<close>, \<open>_run_monitor_thread\<close> and
  \<open>_run_expansion_thread\<close> are the same code around a different controller call. The
  controller call (\<open>run_crawler\<close>, \<open>start_monitor\<close>, \<open>analyze_with_auto_expansion\<close>)
  receives none of the registry, so its outcome is a value fixed before the writes:
  \<open>Inr r\<close> when it returned \<open>r\<close>, \<open>Inl msg\<close> when it raised. The writes that follow go
  through \<open>self.active_jobs[job_id]\<close>; for an id that is not in the registry the
  subscript raises \<open>KeyError\<close> in the \<open>try\<close> block and again in the handler, and nothing
  is written.
\<close>

definition run_worker_thread :: "'r registry \<Rightarrow> string \<Rightarrow> string + 'r \<Rightarrow> int \<Rightarrow> 'r registry" where
  "run_worker_thread reg jid outcome now =
     (case reg jid of
        None \<Rightarrow> reg
      | Some job \<Rightarrow>
          (case outcome of
             Inr r \<Rightarrow> reg(jid \<mapsto> job\<lparr>result := RunResult r, status := Completed,
                                     completed_at := Some now\<rparr>)
           | Inl msg \<Rightarrow> reg(jid \<mapsto> job\<lparr>status := Failed, job_error := Some msg,
                                       completed_at := Some now\<rparr>)))"

definition terminal :: "job_status \<Rightarrow> bool" where
  "terminal st = (st \<noteq> Started)"


section \<open>The graph store, alerts and the clock (aml_analytics.py)\<close>

text \<open>
  Scores are Python floats; they are modelled as real numbers, so the rounding of the
  floating-point operations is left out. Every \<open>time.time()\<close> call is one reading of
  a clock \<open>clk\<close>: the \<open>k\<close>-th call of a run returns \<open>clk k\<close>, in milliseconds, and the
  store counts the readings taken so far in \<open>ticks\<close>.

  The id of an alert is the string \<open>f"{alert_type}:{address}:{now}"\<close>; it is modelled
  as the triple of its three parts. An Alert node is linked by \<open>FOR\<close> to the address
  named in its id.
\<close>

type_synonym clock = "nat \<Rightarrow> int"

type_synonym alert_id = "string \<times> string \<times> int"

datatype detail = DNum real | DList "real list"

record alert =
  al_type :: string
  al_score :: real
  al_details :: "(string \<times> detail) list"
  al_created_at :: int

record address_node =
  pagerank :: "real option"
  degree :: "real option"
  inDegree :: "real option"
  outDegree :: "real option"
  triangles :: "real option"
  risk_score :: "real option"
  last_alert_ts :: "int option"
  has_alert :: bool

record store =
  addresses :: "string \<rightharpoonup> address_node"
  alerts :: "(alert_id \<times> alert) list"
  ticks :: nat

definition empty_node :: address_node where
  "empty_node =
     \<lparr>pagerank = None, degree = None, inDegree = None, outDegree = None, triangles = None,
      risk_score = None, last_alert_ts = None, has_alert = False\<rparr>"

text \<open>\<open>MERGE (a:Address {address: $address})\<close>: the node, created bare when absent.\<close>

definition merge_address :: "(string \<rightharpoonup> address_node) \<Rightarrow> string \<Rightarrow> address_node" where
  "merge_address m a = (case m a of None \<Rightarrow> empty_node | Some n \<Rightarrow> n)"

text \<open>
  \<open>MERGE (al:Alert {id: $id}) ON CREATE SET al.created_at = $now
  SET al.type = $type, al.score = $score, al.details = $details\<close>:
  an existing node with this id keeps its \<open>created_at\<close> and has the other three
  properties overwritten; otherwise a new node is appended.
\<close>

fun merge_alert :: "(alert_id \<times> alert) list \<Rightarrow> alert_id \<Rightarrow> string \<Rightarrow> real \<Rightarrow>
    (string \<times> detail) list \<Rightarrow> int \<Rightarrow> (alert_id \<times> alert) list" where
  "merge_alert [] aid ty sc det now =
     [(aid, \<lparr>al_type = ty, al_score = sc, al_details = det, al_created_at = now\<rparr>)]"
| "merge_alert ((k, al) # rest) aid ty sc det now =
     (if k = aid
      then (k, al\<lparr>al_type := ty, al_score := sc, al_details := det\<rparr>) # rest
      else (k, al) # merge_alert rest aid ty sc det now)"

definition create_alert :: "clock \<Rightarrow> store \<Rightarrow> string \<Rightarrow> string \<Rightarrow> real \<Rightarrow>
    (string \<times> detail) list \<Rightarrow> store" where
  "create_alert clk s address alert_type score details =
     (let now = clk (ticks s);
          alert_id = (alert_type, address, now);
          node = merge_address (addresses s) address
      in \<lparr>addresses = (addresses s)(address \<mapsto> node\<lparr>last_alert_ts := Some now, has_alert := True\<rparr>),
          alerts = merge_alert (alerts s) alert_id alert_type score details now,
          ticks = ticks s + 1\<rparr>)"

text \<open>
  The loop \<open>for r in rows: ... results.append(...); _create_alert(...)\<close> that ends every
  detector; the rows are already filtered by the detector's \<open>if score > 0\<close> where it has
  one.
\<close>

fun emit_alerts :: "clock \<Rightarrow> string \<Rightarrow> store \<Rightarrow> (string \<times> real \<times> (string \<times> detail) list) list \<Rightarrow> store" where
  "emit_alerts clk ty s [] = s"
| "emit_alerts clk ty s ((a, sc, det) # rows) =
     emit_alerts clk ty (create_alert clk s a ty sc det) rows"

definition results_of :: "(string \<times> real \<times> (string \<times> detail) list) list \<Rightarrow> (string \<times> real) list" where
  "results_of rows = map (\<lambda>(a, sc, det). (a, sc)) rows"

text \<open>\<open>int(time.time())\<close>: one clock reading, in whole seconds.\<close>

definition read_seconds :: "clock \<Rightarrow> store \<Rightarrow> int \<times> store" where
  "read_seconds clk s = (clk (ticks s) div 1000, s\<lparr>ticks := ticks s + 1\<rparr>)"

section \<open>What the database holds for one address\<close>

text \<open>
  The queries run inside Neo4j. For Structuring and Circularity the matching and the
  aggregation are modelled on the stored transactions and \<open>TRANSFER\<close> relationships.
  For the other detectors the view gives the rows that reach the part of the query
  modelled here (the \<open>WHERE\<close> on the aggregates and the \<open>RETURN\<close> with its \<open>CASE\<close>);
  a query whose \<open>MATCH\<close> finds nothing gives no row.
\<close>

record graph_view =
  received :: "string \<Rightarrow> (real \<times> int) list"
    \<comment> \<open>value and time of every Transaction with a \<open>RECEIVED_BY\<close> edge to the address\<close>
  transfers :: "(string \<times> string) list"
    \<comment> \<open>source and destination of every \<open>TRANSFER\<close> relationship\<close>
  peel_rows :: "string \<Rightarrow> nat list"
    \<comment> \<open>\<open>depth\<close> after \<open>WITH a0, count(*) AS depth\<close>\<close>
  mixer_rows :: "string \<Rightarrow> (nat \<times> nat) list"
    \<comment> \<open>\<open>fanin\<close>, \<open>fanout\<close>\<close>
  taint_rows :: "(alert_id \<times> alert) list \<Rightarrow> string \<Rightarrow> nat option list"
    \<comment> \<open>\<open>length(p)\<close> of each shortest path to an address with a heavy alert, or null\<close>
  velocity_rows :: "int \<Rightarrow> string \<Rightarrow> (nat \<times> int) list"
    \<comment> \<open>\<open>tx_count\<close>, \<open>time_span_seconds\<close> for transactions since the given time\<close>
  dormant_rows :: "int \<Rightarrow> string \<Rightarrow> (int \<times> nat \<times> real) list"
    \<comment> \<open>\<open>lifetime_seconds\<close>, \<open>recent_tx_count\<close>, \<open>recent_value\<close>\<close>
  round_rows :: "int \<Rightarrow> string \<Rightarrow> (nat \<times> real list) list"
    \<comment> \<open>\<open>round_tx_count\<close>, \<open>amounts\<close>\<close>
  timing_rows :: "int \<Rightarrow> string \<Rightarrow> int list list"
    \<comment> \<open>\<open>timestamps\<close>, collected in ascending order\<close>
  wash_rows :: "int \<Rightarrow> string \<Rightarrow> (nat \<times> nat) list"
    \<comment> \<open>\<open>counterparties\<close>, \<open>total_roundtrips\<close>\<close>


section \<open>The ten detectors of the pipeline (aml_analytics.py)\<close>

type_synonym alert_row = "string \<times> real \<times> (string \<times> detail) list"

subsection \<open>Structuring\<close>

text \<open>
  The query keeps the received transactions with \<open>0 < value < max_small\<close> since the
  given time, counts and sums them per address, keeps the group when
  \<open>cnt >= min_count\<close> and returns \<open>(toFloat(cnt) / min_count) * 20\<close> plus 10 when the
  total exceeds 1.0. With no matching transaction there is no group and no row.
\<close>

definition structuring_score :: "nat \<Rightarrow> nat \<Rightarrow> real \<Rightarrow> real" where
  "structuring_score cnt min_count total_value =
     (real cnt / real min_count) * 20 + (if total_value > 1.0 then 10 else 0)"

definition structuring_query :: "graph_view \<Rightarrow> string \<Rightarrow> real \<Rightarrow> int \<Rightarrow> nat \<Rightarrow> (string \<times> real) list" where
  "structuring_query gv address max_small since min_count =
     (let small = filter (\<lambda>(v, t). v > 0 \<and> v < max_small \<and> t \<ge> since) (received gv address);
          cnt = length small;
          total_value = sum_list (map fst small)
      in if small = [] then []
         else if cnt \<ge> min_count then [(address, structuring_score cnt min_count total_value)]
         else [])"

definition detect_structuring :: "clock \<Rightarrow> graph_view \<Rightarrow> store \<Rightarrow> string \<Rightarrow> (string \<times> real) list \<times> store" where
  "detect_structuring clk gv s address =
     (let (now, s1) = read_seconds clk s;
          rows = structuring_query gv address 0.5 (now - 3 * 24 * 3600) 5;
          out = map (\<lambda>(a, score). (a, score, [(''window_days'', DNum 3)])) rows
      in (results_of out, emit_alerts clk ''STRUCTURING'' s1 out))"

subsection \<open>Peel chain\<close>

definition peel_score :: "nat \<Rightarrow> real" where
  "peel_score depth = (if depth \<ge> 1 then 40 else 0) + real depth * 10"

definition detect_peel_chains :: "clock \<Rightarrow> graph_view \<Rightarrow> store \<Rightarrow> string \<Rightarrow> (string \<times> real) list \<times> store" where
  "detect_peel_chains clk gv s address =
     (let out = map (\<lambda>depth. (address, peel_score depth, [(''ratio'', DNum 0.7)])) (peel_rows gv address)
      in (results_of out, emit_alerts clk ''PEEL_CHAIN'' s out))"

subsection \<open>Mixer pattern\<close>

definition mixer_score :: "nat \<Rightarrow> nat \<Rightarrow> real" where
  "mixer_score fanin fanout =
     (if fanin \<ge> 20 \<or> fanout \<ge> 20 then 60
      else if fanin \<ge> 10 \<or> fanout \<ge> 10 then 40
      else 0)"

definition find_mixer_activity :: "clock \<Rightarrow> graph_view \<Rightarrow> store \<Rightarrow> string \<Rightarrow> (string \<times> real) list \<times> store" where
  "find_mixer_activity clk gv s address =
     (let rows = map (\<lambda>(fanin, fanout).
                   (address, mixer_score fanin fanout,
                    [(''fanin'', DNum (real fanin)), (''fanout'', DNum (real fanout))]))
                 (mixer_rows gv address);
          out = filter (\<lambda>(a, score, det). score > 0) rows
      in (results_of out, emit_alerts clk ''MIXER_PATTERN'' s out))"

subsection \<open>Taint\<close>

definition taint_score :: "nat option \<Rightarrow> real" where
  "taint_score p =
     max 0 (case p of None \<Rightarrow> 0 | Some len \<Rightarrow> of_int (50 - 10 * (int len - 1)))"

definition run_taint_analysis :: "clock \<Rightarrow> graph_view \<Rightarrow> store \<Rightarrow> string \<Rightarrow> (string \<times> real) list \<times> store" where
  "run_taint_analysis clk gv s address =
     (let rows = map (\<lambda>p. (address, taint_score p, [(''max_hops'', DNum 3)]))
                 (taint_rows gv (alerts s) address);
          out = filter (\<lambda>(a, score, det). score > 0) rows
      in (results_of out, emit_alerts clk ''TAINT'' s out))"

subsection \<open>Circularity\<close>

text \<open>
  \<open>MATCH p = (a)-[:TRANSFER*2..4]->(a)\<close> matches every sequence of 2, 3 or 4
  consecutive \<open>TRANSFER\<close> relationships that starts and ends at the address; within one
  match no relationship is used twice, while nodes may repeat. A relationship is
  identified by its position in \<open>transfers\<close>.
\<close>

fun count_paths :: "(string \<times> string) list \<Rightarrow> nat \<Rightarrow> string \<Rightarrow> string \<Rightarrow> nat list \<Rightarrow> nat" where
  "count_paths es 0 u target used = (if u = target then 1 else 0)"
| "count_paths es (Suc n) u target used =
     sum_list (map (\<lambda>i. if i \<notin> set used \<and> fst (es ! i) = u
                          then count_paths es n (snd (es ! i)) target (i # used)
                          else 0)
                   [0..<length es])"

definition count_cycles :: "graph_view \<Rightarrow> string \<Rightarrow> nat" where
  "count_cycles gv address =
     count_paths (transfers gv) 2 address address []
     + count_paths (transfers gv) 3 address address []
     + count_paths (transfers gv) 4 address address []"

definition circularity_score :: "nat \<Rightarrow> real" where
  "circularity_score cycles =
     (if cycles \<ge> 3 then 50 else if cycles = 2 then 35 else if cycles = 1 then 20 else 0)"

text \<open>With no matching path there is no group for \<open>count(p)\<close> and the query has no row.\<close>

definition circular_query :: "graph_view \<Rightarrow> string \<Rightarrow> (string \<times> real \<times> nat) list" where
  "circular_query gv address =
     (let cycles = count_cycles gv address
      in if cycles = 0 then [] else [(address, circularity_score cycles, cycles)])"

definition find_circular_txns :: "clock \<Rightarrow> graph_view \<Rightarrow> store \<Rightarrow> string \<Rightarrow> (string \<times> real) list \<times> store" where
  "find_circular_txns clk gv s address =
     (let rows = map (\<lambda>(a, score, cycles). (a, score, [(''cycles'', DNum (real cycles))]))
                 (circular_query gv address);
          out = filter (\<lambda>(a, score, det). score > 0) rows
      in (results_of out, emit_alerts clk ''CIRCULARITY'' s out))"


subsection \<open>Velocity burst\<close>

definition txs_per_hour_of :: "nat \<Rightarrow> int \<Rightarrow> real" where
  "txs_per_hour_of tx_count time_span_seconds =
     (if time_span_seconds > 0
      then real tx_count / (of_int time_span_seconds / 3600)
      else real tx_count)"

definition velocity_score :: "real \<Rightarrow> real" where
  "velocity_score txs_per_hour =
     (if txs_per_hour \<ge> 50 then 70
      else if txs_per_hour \<ge> 30 then 55
      else if txs_per_hour \<ge> 10 then 40
      else 30)"

definition velocity_query :: "graph_view \<Rightarrow> string \<Rightarrow> int \<Rightarrow> nat \<Rightarrow> (string \<times> real \<times> nat \<times> real) list" where
  "velocity_query gv address since min_count =
     (let counted = filter (\<lambda>(tx_count, span). tx_count \<ge> min_count) (velocity_rows gv since address);
          rated = map (\<lambda>(tx_count, span). (tx_count, txs_per_hour_of tx_count span)) counted;
          fast = filter (\<lambda>(tx_count, rate). rate \<ge> 10) rated
      in map (\<lambda>(tx_count, rate). (address, velocity_score rate, tx_count, rate)) fast)"

definition detect_velocity_alert :: "clock \<Rightarrow> graph_view \<Rightarrow> store \<Rightarrow> string \<Rightarrow> (string \<times> real) list \<times> store" where
  "detect_velocity_alert clk gv s address =
     (let (now, s1) = read_seconds clk s;
          rows = velocity_query gv address (now - 24 * 3600) 10;
          out = map (\<lambda>(a, score, tx_count, rate).
                  (a, score, [(''tx_count'', DNum (real tx_count)), (''txs_per_hour'', DNum rate),
                              (''window_hours'', DNum 24)])) rows
      in (results_of out, emit_alerts clk ''VELOCITY_ALERT'' s1 out))"

subsection \<open>Dormant reactivation\<close>

definition dormant_score :: "real \<Rightarrow> real" where
  "dormant_score recent_value =
     (if recent_value \<ge> 10 then 65 else if recent_value \<ge> 5 then 50 else 35)"

definition dormant_query :: "graph_view \<Rightarrow> string \<Rightarrow> int \<Rightarrow> (string \<times> real \<times> int \<times> nat \<times> real) list" where
  "dormant_query gv address recent_threshold =
     (let active = filter (\<lambda>(lifetime, cnt, v). cnt \<ge> 1) (dormant_rows gv recent_threshold address)
      in map (\<lambda>(lifetime, cnt, v). (address, dormant_score v, lifetime div 86400, cnt, v)) active)"

definition detect_dormant_reactivation :: "clock \<Rightarrow> graph_view \<Rightarrow> store \<Rightarrow> string \<Rightarrow> (string \<times> real) list \<times> store" where
  "detect_dormant_reactivation clk gv s address =
     (let (now, s1) = read_seconds clk s;
          rows = dormant_query gv address (now - 30 * 24 * 3600);
          out = map (\<lambda>(a, score, days, cnt, v).
                  (a, score, [(''dormant_days'', DNum (of_int days)),
                              (''recent_tx_count'', DNum (real cnt)),
                              (''recent_value_eth'', DNum v)])) rows
      in (results_of out, emit_alerts clk ''DORMANT_REACTIVATION'' s1 out))"

subsection \<open>Round amounts\<close>

definition round_score :: "nat \<Rightarrow> real" where
  "round_score round_tx_count =
     (if round_tx_count \<ge> 20 then 50 else if round_tx_count \<ge> 10 then 35 else 25)"

definition round_query :: "graph_view \<Rightarrow> string \<Rightarrow> int \<Rightarrow> nat \<Rightarrow> (string \<times> real \<times> nat \<times> real list) list" where
  "round_query gv address since min_count =
     (let enough = filter (\<lambda>(cnt, amounts). cnt \<ge> min_count) (round_rows gv since address)
      in map (\<lambda>(cnt, amounts). (address, round_score cnt, cnt, take 5 amounts)) enough)"

definition detect_round_amounts :: "clock \<Rightarrow> graph_view \<Rightarrow> store \<Rightarrow> string \<Rightarrow> (string \<times> real) list \<times> store" where
  "detect_round_amounts clk gv s address =
     (let (now, s1) = read_seconds clk s;
          rows = round_query gv address (now - 90 * 24 * 3600) 5;
          out = map (\<lambda>(a, score, cnt, sample).
                  (a, score, [(''round_tx_count'', DNum (real cnt)),
                              (''sample_amounts'', DList sample)])) rows
      in (results_of out, emit_alerts clk ''ROUND_AMOUNTS'' s1 out))"

subsection \<open>Timing regularity\<close>

text \<open>
  \<open>intervals\<close> are the differences of consecutive timestamps; \<open>avg_interval\<close> and
  \<open>variance\<close> divide by \<open>size(intervals)\<close>, which is at least \<open>min_count - 1 = 9\<close>
  for every row that passed \<open>size(timestamps) >= $min_count\<close>.
\<close>

definition intervals_of :: "int list \<Rightarrow> real list" where
  "intervals_of timestamps = map (\<lambda>(t0, t1). of_int (t1 - t0)) (zip timestamps (tl timestamps))"

definition avg_interval_of :: "real list \<Rightarrow> real" where
  "avg_interval_of intervals = sum_list intervals / real (length intervals)"

definition variance_of :: "real list \<Rightarrow> real" where
  "variance_of intervals =
     sum_list (map (\<lambda>x. (x - sum_list intervals / real (length intervals))\<^sup>2) intervals)
       / real (length intervals)"

definition timing_score :: "real \<Rightarrow> real" where
  "timing_score avg_interval =
     (if avg_interval \<le> 3600 then 55 else if avg_interval \<le> 7200 then 45 else 35)"

definition timing_query :: "graph_view \<Rightarrow> string \<Rightarrow> int \<Rightarrow> nat \<Rightarrow> real \<Rightarrow> (string \<times> real \<times> real \<times> nat) list" where
  "timing_query gv address since min_count max_variance =
     (let enough = filter (\<lambda>timestamps. length timestamps \<ge> min_count) (timing_rows gv since address);
          measured = map (\<lambda>timestamps.
                       (length timestamps, avg_interval_of (intervals_of timestamps),
                        variance_of (intervals_of timestamps))) enough;
          regular = filter (\<lambda>(n, avg_interval, variance).
                       variance < max_variance \<and> avg_interval < 24 * 3600) measured
      in map (\<lambda>(n, avg_interval, variance).
                (address, timing_score avg_interval, avg_interval / 3600, n)) regular)"

definition detect_timing_patterns :: "clock \<Rightarrow> graph_view \<Rightarrow> store \<Rightarrow> string \<Rightarrow> (string \<times> real) list \<times> store" where
  "detect_timing_patterns clk gv s address =
     (let (now, s1) = read_seconds clk s;
          rows = timing_query gv address (now - 30 * 24 * 3600) 10 (3600 * 3600);
          out = map (\<lambda>(a, score, avg_hours, n).
                  (a, score, [(''avg_interval_hours'', DNum avg_hours),
                              (''tx_count'', DNum (real n))])) rows
      in (results_of out, emit_alerts clk ''TIMING_PATTERN'' s1 out))"

subsection \<open>Wash trading\<close>

definition wash_score :: "nat \<Rightarrow> real" where
  "wash_score total_roundtrips =
     (if total_roundtrips \<ge> 20 then 70 else if total_roundtrips \<ge> 10 then 55 else 40)"

definition detect_wash_trading :: "clock \<Rightarrow> graph_view \<Rightarrow> store \<Rightarrow> string \<Rightarrow> (string \<times> real) list \<times> store" where
  "detect_wash_trading clk gv s address =
     (let (now, s1) = read_seconds clk s;
          rows = wash_rows gv (now - 90 * 24 * 3600) address;
          out = map (\<lambda>(counterparties, total_roundtrips).
                  (address, wash_score total_roundtrips,
                   [(''counterparties'', DNum (real counterparties)),
                    (''total_roundtrips'', DNum (real total_roundtrips))])) rows
      in (results_of out, emit_alerts clk ''WASH_TRADING'' s1 out))"

subsection \<open>The pipeline\<close>

text \<open>
  The result dict of \<open>run_all_analytics\<close>, as the list of its items in insertion order.
\<close>

type_synonym analytics = "(string \<times> (string \<times> real) list) list"

definition run_all_analytics :: "clock \<Rightarrow> graph_view \<Rightarrow> store \<Rightarrow> string \<Rightarrow> analytics \<times> store" where
  "run_all_analytics clk gv s address =
     (let (r1, s1) = detect_structuring clk gv s address;
          (r2, s2) = detect_peel_chains clk gv s1 address;
          (r3, s3) = find_mixer_activity clk gv s2 address;
          (r4, s4) = run_taint_analysis clk gv s3 address;
          (r5, s5) = find_circular_txns clk gv s4 address;
          (r6, s6) = detect_velocity_alert clk gv s5 address;
          (r7, s7) = detect_dormant_reactivation clk gv s6 address;
          (r8, s8) = detect_round_amounts clk gv s7 address;
          (r9, s9) = detect_timing_patterns clk gv s8 address;
          (r10, s10) = detect_wash_trading clk gv s9 address
      in ([(''structuring'', r1), (''peel_chains'', r2), (''mixer_activity'', r3),
           (''taint'', r4), (''circularity'', r5), (''velocity_alert'', r6),
           (''dormant_reactivation'', r7), (''round_amounts'', r8),
           (''timing_patterns'', r9), (''wash_trading'', r10)], s10))"

section \<open>Risk Scorer (ml_models.py)\<close>

definition normalize :: "real \<Rightarrow> real \<Rightarrow> real \<Rightarrow> real" where
  "normalize x lo hi = (if hi \<le> lo then 0 else (max lo (min hi x) - lo) / (hi - lo))"

text \<open>\<open>coalesce(a.p, 0.0)\<close> for a property that may be absent.\<close>

definition coalesce :: "real option \<Rightarrow> real \<Rightarrow> real" where
  "coalesce p d = (case p of None \<Rightarrow> d | Some v \<Rightarrow> v)"

text \<open>\<open>count(al)\<close> over the Alert nodes with a \<open>FOR\<close> edge to the address.\<close>

definition alert_count :: "store \<Rightarrow> string \<Rightarrow> nat" where
  "alert_count s address = length (filter (\<lambda>((ty, a, now), al). a = address) (alerts s))"

definition base_score :: "address_node \<Rightarrow> real" where
  "base_score n =
     (let pr_n = normalize (coalesce (pagerank n) 0) 0 0.01;
          deg_n = normalize (coalesce (degree n) 0) 0 100;
          indeg_n = normalize (coalesce (inDegree n) 0) 0 60;
          outdeg_n = normalize (coalesce (outDegree n) 0) 0 60;
          tri_n = normalize (coalesce (triangles n) 0) 0 50
      in 30 * pr_n + 15 * deg_n + 15 * tri_n + 10 * indeg_n + 10 * outdeg_n)"

definition alerts_bonus :: "nat \<Rightarrow> real" where
  "alerts_bonus n = real (min 40 (n * 10))"

definition combine_score :: "real \<Rightarrow> nat \<Rightarrow> real" where
  "combine_score base n = max 0 (min 100 (base + alerts_bonus n))"

text \<open>
  \<open>get_address_risk_score\<close>: with no Address node for the address the query has no
  record and the function returns 0.0 without writing; otherwise the score is computed
  and set as \<open>risk_score\<close> on the node.
\<close>

definition get_address_risk_score :: "store \<Rightarrow> string \<Rightarrow> real \<times> store" where
  "get_address_risk_score s address =
     (case addresses s address of
        None \<Rightarrow> (0, s)
      | Some n \<Rightarrow>
          (let score = combine_score (base_score n) (alert_count s address)
           in (score, s\<lparr>addresses := (addresses s)(address \<mapsto> n\<lparr>risk_score := Some score\<rparr>)\<rparr>)))"


section \<open>What the traversal controllers call\<close>

text \<open>
  The crawler and the auto-expansion reach the outside through \<open>ingest_address\<close>
  (Etherscan and the database), \<open>session.execute_write(run_all_analytics)\<close> and the
  two counterparty queries. They are taken as parameters over an arbitrary world
  \<open>'w\<close>; \<open>Inl\<close> is a raised exception with its message. The counterparty queries
  return the \<open>address\<close> column of their records, null included.
\<close>

record 'w env =
  ingest_address :: "'w \<Rightarrow> string \<Rightarrow> int \<Rightarrow> (string + nat) \<times> 'w"
  run_analytics :: "'w \<Rightarrow> string \<Rightarrow> (string + analytics) \<times> 'w"
  connected_rows :: "'w \<Rightarrow> string \<Rightarrow> real \<Rightarrow> string + string option list"
  top_connected_rows :: "'w \<Rightarrow> string \<Rightarrow> real \<Rightarrow> int \<Rightarrow> string + string option list"

text \<open>\<open>str.lower()\<close> on the ASCII letters; addresses are hexadecimal strings.\<close>

definition lower_char :: "char \<Rightarrow> char" where
  "lower_char c =
     (let n = (of_char c :: nat) in if 65 \<le> n \<and> n \<le> 90 then char_of (n + 32) else c)"

definition lower :: "string \<Rightarrow> string" where
  "lower s = map lower_char s"

text \<open>\<open>[rec["address"].lower() for rec in records if rec["address"]]\<close>\<close>

definition lowered_addresses :: "string option list \<Rightarrow> string list" where
  "lowered_addresses records =
     map lower (filter (\<lambda>a. a \<noteq> []) (List.map_filter id records))"

text \<open>\<open>sum(len(v) for v in analytics.values())\<close>\<close>

definition count_alerts :: "analytics \<Rightarrow> nat" where
  "count_alerts an = sum_list (map (\<lambda>(k, v). length v) an)"

section \<open>Crawler (crawler.py)\<close>

record crawler_cfg =
  seed_addresses :: "string list"
  max_depth :: int
  min_transaction_value_eth :: real
  min_risk_score_to_expand :: real
  max_addresses :: int
  transaction_limit_per_address :: int

text \<open>The dict returned by \<open>_analyze_address\<close> (its \<open>timestamp\<close> left out).\<close>

record suspicious =
  sus_address :: string
  sus_depth :: int
  sus_risk_score :: real
  sus_alerts :: analytics

text \<open>
  The crawler object's fields. \<open>analyzing_log\<close> holds the records of
  \<open>logger.info(f"Analyzing {address} at depth {depth} ...")\<close>, written once for each
  address that is analyzed.
\<close>

record crawler_state =
  visited :: "string fset"
  to_analyze :: "(string \<times> int) list"
  suspicious_found :: "suspicious list"
  addresses_analyzed :: nat
  suspicious_count :: nat
  total_alerts :: nat
  analyzing_log :: "(string \<times> int) list"

text \<open>The body of the loop over \<open>analytics.items()\<close> in \<open>_calculate_quick_risk_score\<close>.\<close>

definition quick_item :: "string \<Rightarrow> (string \<times> real) list \<Rightarrow> real \<Rightarrow> real" where
  "quick_item alert_type found score =
     (if found = [] then score
      else if alert_type = ''structuring'' then score + real (min 30 (length found * 15))
      else if alert_type = ''peel_chains'' then score + real (min 40 (length found * 20))
      else if alert_type = ''mixer_activity'' then score + real (min 50 (length found * 25))
      else if alert_type = ''taint'' then score + real (min 40 (length found * 20))
      else if alert_type = ''circularity'' then score + real (min 35 (length found * 15))
      else score)"

fun quick_loop :: "analytics \<Rightarrow> real \<Rightarrow> real" where
  "quick_loop [] score = score"
| "quick_loop ((alert_type, found) # rest) score = quick_loop rest (quick_item alert_type found score)"

definition calculate_quick_risk_score :: "analytics \<Rightarrow> real" where
  "calculate_quick_risk_score an = min 100 (quick_loop an 0)"

definition analyze_address :: "'w env \<Rightarrow> crawler_cfg \<Rightarrow> 'w \<Rightarrow> crawler_state \<Rightarrow> string \<Rightarrow> int
    \<Rightarrow> suspicious option \<times> 'w \<times> crawler_state" where
  "analyze_address e cfg w st address depth =
     (case ingest_address e w address (transaction_limit_per_address cfg) of
        (Inl err, w1) \<Rightarrow> (None, w1, st)
      | (Inr ingested, w1) \<Rightarrow>
          if ingested = 0 then (None, w1, st)
          else
            (let (an, w2, st2) =
                   (case run_analytics e w1 address of
                      (Inl err, w2) \<Rightarrow> ([], w2, st)
                    | (Inr an, w2) \<Rightarrow> (an, w2, st\<lparr>total_alerts := total_alerts st + count_alerts an\<rparr>));
                 risk = calculate_quick_risk_score an
             in if risk \<ge> 40
                then (Some \<lparr>sus_address = address, sus_depth = depth, sus_risk_score = risk,
                            sus_alerts = an\<rparr>, w2, st2)
                else (None, w2, st2)))"

definition get_connected_addresses :: "'w env \<Rightarrow> crawler_cfg \<Rightarrow> 'w \<Rightarrow> string \<Rightarrow> string + string list" where
  "get_connected_addresses e cfg w address =
     (case connected_rows e w address (min_transaction_value_eth cfg) of
        Inl err \<Rightarrow> Inl err
      | Inr records \<Rightarrow> Inr (lowered_addresses records))"

text \<open>\<open>for conn in connected: if conn not in self.visited: self.to_analyze.append((conn, depth + 1))\<close>\<close>

definition enqueue_connected :: "crawler_state \<Rightarrow> string list \<Rightarrow> int \<Rightarrow> crawler_state" where
  "enqueue_connected st conn_addrs depth =
     st\<lparr>to_analyze := to_analyze st
           @ map (\<lambda>conn. (conn, depth + 1)) (filter (\<lambda>conn. conn |\<notin>| visited st) conn_addrs)\<rparr>"

text \<open>
  One pass through the body of the \<open>while\<close> loop of \<open>crawl\<close>, for a non-empty
  worklist. An exception of the counterparty query is caught by the loop's handler:
  the pass ends there, after the result was recorded and before
  \<open>addresses_analyzed\<close> is incremented.
\<close>

definition crawl_step :: "'w env \<Rightarrow> crawler_cfg \<Rightarrow> 'w \<times> crawler_state \<Rightarrow> 'w \<times> crawler_state" where
  "crawl_step e cfg wst =
     (case wst of (w, st) \<Rightarrow>
      (case to_analyze st of
         [] \<Rightarrow> (w, st)
       | (address, depth) # rest \<Rightarrow>
           (let st0 = st\<lparr>to_analyze := rest\<rparr>
            in if address |\<in>| visited st0 \<or> depth > max_depth cfg then (w, st0)
               else
                 (let st1 = st0\<lparr>analyzing_log := analyzing_log st0 @ [(address, depth)],
                                visited := finsert address (visited st0)\<rparr>;
                      (res, w1, st2) = analyze_address e cfg w st1 address depth
                  in case res of
                       None \<Rightarrow> (w1, st2\<lparr>addresses_analyzed := addresses_analyzed st2 + 1\<rparr>)
                     | Some r \<Rightarrow>
                         (let st3 = st2\<lparr>suspicious_found := suspicious_found st2 @ [r],
                                        suspicious_count := suspicious_count st2 + 1\<rparr>
                          in if sus_risk_score r \<ge> min_risk_score_to_expand cfg \<and> depth < max_depth cfg
                             then (case get_connected_addresses e cfg w1 address of
                                     Inl err \<Rightarrow> (w1, st3)
                                   | Inr conn_addrs \<Rightarrow>
                                       (let st4 = enqueue_connected st3 conn_addrs depth
                                        in (w1, st4\<lparr>addresses_analyzed := addresses_analyzed st4 + 1\<rparr>)))
                             else (w1, st3\<lparr>addresses_analyzed := addresses_analyzed st3 + 1\<rparr>))))))"


text \<open>
  Two facts about one pass, used to show that the loop ends: a skipped entry only
  shortens the worklist, and an analyzed address is added to \<open>visited\<close>.
\<close>

lemma analyze_address_fields:
  "analyze_address e cfg w st address depth = (r, w', st')
     \<Longrightarrow> visited st' = visited st \<and> to_analyze st' = to_analyze st"
  unfolding analyze_address_def Let_def
  by (auto split: prod.splits sum.splits if_splits)

lemma crawl_step_skip:
  assumes "to_analyze st = (address, depth) # rest"
    and "address |\<in>| visited st \<or> depth > max_depth cfg"
  shows "crawl_step e cfg (w, st) = (w, st\<lparr>to_analyze := rest\<rparr>)"
  using assms by (simp add: crawl_step_def Let_def)

lemma crawl_step_analyze:
  assumes q: "to_analyze st = (address, depth) # rest"
    and nv: "\<not> (address |\<in>| visited st \<or> depth > max_depth cfg)"
    and an: "analyze_address e cfg w
               (st\<lparr>to_analyze := rest, analyzing_log := analyzing_log st @ [(address, depth)],
                   visited := finsert address (visited st)\<rparr>) address depth = (res, w1, st2)"
  shows "crawl_step e cfg (w, st) =
       (case res of
          None \<Rightarrow> (w1, st2\<lparr>addresses_analyzed := addresses_analyzed st2 + 1\<rparr>)
        | Some r \<Rightarrow>
            (let st3 = st2\<lparr>suspicious_found := suspicious_found st2 @ [r],
                           suspicious_count := suspicious_count st2 + 1\<rparr>
             in if sus_risk_score r \<ge> min_risk_score_to_expand cfg \<and> depth < max_depth cfg
                then (case get_connected_addresses e cfg w1 address of
                        Inl err \<Rightarrow> (w1, st3)
                      | Inr conn_addrs \<Rightarrow>
                          (let st4 = enqueue_connected st3 conn_addrs depth
                           in (w1, st4\<lparr>addresses_analyzed := addresses_analyzed st4 + 1\<rparr>)))
                else (w1, st3\<lparr>addresses_analyzed := addresses_analyzed st3 + 1\<rparr>)))"
  using q nv an by (simp add: crawl_step_def Let_def)

lemma crawl_step_visit:
  assumes q: "to_analyze st = (address, depth) # rest"
    and nv: "\<not> (address |\<in>| visited st \<or> depth > max_depth cfg)"
  shows "visited (snd (crawl_step e cfg (w, st))) = finsert address (visited st)"
proof -
  let ?st1 = "st\<lparr>to_analyze := rest, analyzing_log := analyzing_log st @ [(address, depth)],
                  visited := finsert address (visited st)\<rparr>"
  obtain res w1 st2 where an: "analyze_address e cfg w ?st1 address depth = (res, w1, st2)"
    by (cases "analyze_address e cfg w ?st1 address depth") auto
  have v2: "visited st2 = finsert address (visited st)"
    using analyze_address_fields[OF an] by simp
  show ?thesis
    unfolding crawl_step_analyze[OF q nv an] using v2
    by (simp add: Let_def enqueue_connected_def split: option.split sum.split)
qed

text \<open>
  \<open>while self.to_analyze and len(self.visited) < self.max_addresses\<close>. Every pass
  either drops a worklist entry or adds a new address to \<open>visited\<close>, whose size is
  bounded by \<open>max_addresses\<close>, so the loop ends.
\<close>

function crawl_loop :: "'w env \<Rightarrow> crawler_cfg \<Rightarrow> 'w \<times> crawler_state \<Rightarrow> 'w \<times> crawler_state" where
  "crawl_loop e cfg wst =
     (if to_analyze (snd wst) \<noteq> [] \<and> int (fcard (visited (snd wst))) < max_addresses cfg
      then crawl_loop e cfg (crawl_step e cfg wst)
      else wst)"
  by pat_completeness auto
termination
proof (relation "measures [\<lambda>(e, cfg, wst). nat (max_addresses cfg - int (fcard (visited (snd wst)))),
                           \<lambda>(e, cfg, wst). length (to_analyze (snd wst))]")
  show "wf (measures [\<lambda>(e, cfg, wst). nat (max_addresses cfg - int (fcard (visited (snd wst)))),
                      \<lambda>(e :: 'w env, cfg, wst). length (to_analyze (snd wst))])"
    by simp
next
  fix e :: "'w env" and cfg :: crawler_cfg and wst :: "'w \<times> crawler_state"
  assume a: "to_analyze (snd wst) \<noteq> [] \<and> int (fcard (visited (snd wst))) < max_addresses cfg"
  obtain w st where wst: "wst = (w, st)" by (cases wst)
  obtain address depth rest where q: "to_analyze st = (address, depth) # rest"
    using a wst by (cases "to_analyze st") auto
  show "((e, cfg, crawl_step e cfg wst), (e, cfg, wst))
        \<in> measures [\<lambda>(e, cfg, wst). nat (max_addresses cfg - int (fcard (visited (snd wst)))),
                     \<lambda>(e, cfg, wst). length (to_analyze (snd wst))]"
  proof (cases "address |\<in>| visited st \<or> depth > max_depth cfg")
    case True
    show ?thesis using wst q by (simp add: crawl_step_skip[OF q True])
  next
    case False
    then have nv: "address |\<notin>| visited st" by simp
    have "fcard (visited (snd (crawl_step e cfg wst))) = Suc (fcard (visited st))"
      using nv by (simp add: wst crawl_step_visit[OF q False] fcard_finsert_disjoint)
    then show ?thesis using a wst by auto
  qed
qed

text \<open>The fields of a new \<open>BlockchainCrawler\<close>.\<close>

definition new_crawler :: crawler_state where
  "new_crawler =
     \<lparr>visited = {||}, to_analyze = [], suspicious_found = [], addresses_analyzed = 0,
      suspicious_count = 0, total_alerts = 0, analyzing_log = []\<rparr>"

text \<open>
  \<open>crawl\<close>: the seeds are queued in lower case at depth 0, then the loop runs. The
  returned dict holds the stats and the suspicious addresses, which are fields of the
  final state.
\<close>

definition seed_queue :: "crawler_cfg \<Rightarrow> crawler_state \<Rightarrow> crawler_state" where
  "seed_queue cfg st = st\<lparr>to_analyze := to_analyze st @ map (\<lambda>seed. (lower seed, 0)) (seed_addresses cfg)\<rparr>"

definition crawl :: "'w env \<Rightarrow> crawler_cfg \<Rightarrow> 'w \<Rightarrow> 'w \<times> crawler_state" where
  "crawl e cfg w = crawl_loop e cfg (w, seed_queue cfg new_crawler)"


text \<open>
  The states the loop passes through, the first being the state before the first
  test of the loop condition and the last the state in which the loop ends.
\<close>

function crawl_trace :: "'w env \<Rightarrow> crawler_cfg \<Rightarrow> 'w \<times> crawler_state \<Rightarrow> ('w \<times> crawler_state) list" where
  "crawl_trace e cfg wst =
     wst # (if to_analyze (snd wst) \<noteq> [] \<and> int (fcard (visited (snd wst))) < max_addresses cfg
            then crawl_trace e cfg (crawl_step e cfg wst)
            else [])"
  by pat_completeness auto
termination
proof (relation "measures [\<lambda>(e, cfg, wst). nat (max_addresses cfg - int (fcard (visited (snd wst)))),
                           \<lambda>(e, cfg, wst). length (to_analyze (snd wst))]")
  show "wf (measures [\<lambda>(e, cfg, wst). nat (max_addresses cfg - int (fcard (visited (snd wst)))),
                      \<lambda>(e :: 'w env, cfg, wst). length (to_analyze (snd wst))])"
    by simp
next
  fix e :: "'w env" and cfg :: crawler_cfg and wst :: "'w \<times> crawler_state"
  assume a: "to_analyze (snd wst) \<noteq> [] \<and> int (fcard (visited (snd wst))) < max_addresses cfg"
  obtain w st where wst: "wst = (w, st)" by (cases wst)
  obtain address depth rest where q: "to_analyze st = (address, depth) # rest"
    using a wst by (cases "to_analyze st") auto
  show "((e, cfg, crawl_step e cfg wst), (e, cfg, wst))
        \<in> measures [\<lambda>(e, cfg, wst). nat (max_addresses cfg - int (fcard (visited (snd wst)))),
                     \<lambda>(e, cfg, wst). length (to_analyze (snd wst))]"
  proof (cases "address |\<in>| visited st \<or> depth > max_depth cfg")
    case True
    show ?thesis using wst q by (simp add: crawl_step_skip[OF q True])
  next
    case False
    then have nv: "address |\<notin>| visited st" by simp
    have "fcard (visited (snd (crawl_step e cfg wst))) = Suc (fcard (visited st))"
      using nv by (simp add: wst crawl_step_visit[OF q False] fcard_finsert_disjoint)
    then show ?thesis using a wst by auto
  qed
qed

declare crawl_trace.simps [simp del]
declare crawl_loop.simps [simp del]

section \<open>Auto-Expansion (expansion.py)\<close>

record expansion_cfg =
  trigger_risk_score :: real
  expansion_depth :: int
  min_connection_value_eth :: real
  max_addresses_per_expansion :: int

record analysis =
  an_address :: string
  an_risk_score :: real
  an_alert_count :: nat
  an_alerts :: analytics
  transactions_ingested :: nat

datatype expansion_result =
  ExpansionResult (er_address: string) (er_parent: string) (er_depth: int)
                  (er_analysis: analysis) (sub_expansions: "expansion_result list option")

record expansion_state =
  expanded_addresses :: "string fset"
  expansion_map :: "string \<rightharpoonup> string list"
  initial_addresses :: nat
  expansions_triggered :: nat
  total_addresses_analyzed :: nat
  high_risk_found :: nat

text \<open>
  \<open>_calculate_risk_score\<close>: the \<open>weights\<close> dict and the loop over
  \<open>analytics.items()\<close>. This is the score that \<open>_full_analysis\<close> stores as
  \<open>risk_score\<close> (its comment: "simplified for speed").
\<close>

definition weight_of :: "string \<Rightarrow> nat option" where
  "weight_of alert_type =
     (if alert_type = ''structuring'' then Some 15
      else if alert_type = ''peel_chains'' then Some 25
      else if alert_type = ''mixer_activity'' then Some 30
      else if alert_type = ''taint'' then Some 25
      else if alert_type = ''circularity'' then Some 20
      else None)"

definition risk_item :: "string \<Rightarrow> (string \<times> real) list \<Rightarrow> real \<Rightarrow> real" where
  "risk_item alert_type found score =
     (case weight_of alert_type of
        None \<Rightarrow> score
      | Some wt \<Rightarrow> if found = [] then score else score + real (min (wt * 2) (length found * wt)))"

fun risk_loop :: "analytics \<Rightarrow> real \<Rightarrow> real" where
  "risk_loop [] score = score"
| "risk_loop ((alert_type, found) # rest) score = risk_loop rest (risk_item alert_type found score)"

definition calculate_risk_score :: "analytics \<Rightarrow> real" where
  "calculate_risk_score an = min 100 (risk_loop an 0)"

text \<open>
  \<open>_full_analysis\<close>: every exception inside is caught and gives \<open>None\<close>.
\<close>

definition full_analysis :: "'w env \<Rightarrow> 'w \<Rightarrow> string \<Rightarrow> analysis option \<times> 'w" where
  "full_analysis e w address =
     (case ingest_address e w address 500 of
        (Inl err, w1) \<Rightarrow> (None, w1)
      | (Inr ingested, w1) \<Rightarrow>
          if ingested = 0 then (None, w1)
          else (case run_analytics e w1 address of
                  (Inl err, w2) \<Rightarrow> (None, w2)
                | (Inr an, w2) \<Rightarrow>
                    (Some \<lparr>an_address = address, an_risk_score = calculate_risk_score an,
                           an_alert_count = count_alerts an, an_alerts = an,
                           transactions_ingested = ingested\<rparr>, w2)))"

definition get_top_connected :: "'w env \<Rightarrow> expansion_cfg \<Rightarrow> 'w \<Rightarrow> string \<Rightarrow> string + string list" where
  "get_top_connected e cfg w address =
     (case top_connected_rows e w address (min_connection_value_eth cfg) (max_addresses_per_expansion cfg) of
        Inl err \<Rightarrow> Inl err
      | Inr records \<Rightarrow> Inr (lowered_addresses records))"

text \<open>
  \<open>_expand_from_address\<close> and its loop over the connected addresses. An exception
  of the counterparty query is not caught here and ends the whole expansion. The
  recursion goes one level deeper at each call and stops at \<open>expansion_depth\<close>; the
  two ranks below order the calls for the termination proof.
\<close>

definition from_rank :: "expansion_cfg \<Rightarrow> int \<Rightarrow> nat" where
  "from_rank cfg depth = (if depth \<ge> expansion_depth cfg then 0 else 2 * nat (expansion_depth cfg - depth))"

definition connected_rank :: "expansion_cfg \<Rightarrow> int \<Rightarrow> nat" where
  "connected_rank cfg depth =
     (if depth \<ge> expansion_depth cfg then 1 else 2 * nat (expansion_depth cfg - depth) - 1)"

function expand_from_address :: "'w env \<Rightarrow> expansion_cfg \<Rightarrow> 'w \<Rightarrow> expansion_state \<Rightarrow> string \<Rightarrow> int
      \<Rightarrow> string + (expansion_result list \<times> 'w \<times> expansion_state)"
  and expand_connected :: "'w env \<Rightarrow> expansion_cfg \<Rightarrow> 'w \<Rightarrow> expansion_state \<Rightarrow> string \<Rightarrow> int
      \<Rightarrow> string list \<Rightarrow> string + (expansion_result list \<times> 'w \<times> expansion_state)" where
  "expand_from_address e cfg w st address depth =
     (if depth \<ge> expansion_depth cfg then Inr ([], w, st)
      else (case get_top_connected e cfg w address of
              Inl err \<Rightarrow> Inl err
            | Inr conn_addrs \<Rightarrow>
                expand_connected e cfg w
                  (st\<lparr>expansion_map := (expansion_map st)(address \<mapsto> conn_addrs),
                      expansions_triggered := expansions_triggered st + 1\<rparr>)
                  address depth conn_addrs))"
| "expand_connected e cfg w st address depth [] = Inr ([], w, st)"
| "expand_connected e cfg w st address depth (conn_addr # rest) =
     (if conn_addr |\<in>| expanded_addresses st then expand_connected e cfg w st address depth rest
      else
        (case full_analysis e w conn_addr of (found, w1) \<Rightarrow>
         (let st1 = st\<lparr>expanded_addresses := finsert conn_addr (expanded_addresses st),
                       total_addresses_analyzed := total_addresses_analyzed st + 1\<rparr>
          in case found of
               None \<Rightarrow> expand_connected e cfg w1 st1 address depth rest
             | Some a \<Rightarrow>
                 if an_risk_score a \<ge> trigger_risk_score cfg
                 then (case expand_from_address e cfg w1
                              (st1\<lparr>high_risk_found := high_risk_found st1 + 1\<rparr>) conn_addr (depth + 1) of
                         Inl err \<Rightarrow> Inl err
                       | Inr (subs, w2, st2) \<Rightarrow>
                           (case expand_connected e cfg w2 st2 address depth rest of
                              Inl err \<Rightarrow> Inl err
                            | Inr (others, w3, st3) \<Rightarrow>
                                Inr (ExpansionResult conn_addr address (depth + 1) a (Some subs) # others, w3, st3)))
                 else (case expand_connected e cfg w1 st1 address depth rest of
                         Inl err \<Rightarrow> Inl err
                       | Inr (others, w3, st3) \<Rightarrow>
                           Inr (ExpansionResult conn_addr address (depth + 1) a None # others, w3, st3)))))"
  by pat_completeness auto
termination
  by (relation "measures [\<lambda>x. case x of
                     Inl (e, cfg, w, st, address, depth) \<Rightarrow> from_rank cfg depth
                   | Inr (e, cfg, w, st, address, depth, cs) \<Rightarrow> connected_rank cfg depth,
                 \<lambda>x. case x of Inl _ \<Rightarrow> 0 | Inr (e, cfg, w, st, address, depth, cs) \<Rightarrow> length cs]")
     (auto simp: from_rank_def connected_rank_def)

definition new_expansion :: expansion_state where
  "new_expansion =
     \<lparr>expanded_addresses = {||}, expansion_map = Map.empty, initial_addresses = 0,
      expansions_triggered = 0, total_addresses_analyzed = 0, high_risk_found = 0\<rparr>"

text \<open>The \<open>results\<close> dict of \<open>analyze_with_expansion\<close> (its \<open>timestamp\<close> left out).\<close>

record expansion_results =
  initial_address :: string
  initial_analysis :: "analysis option"
  expansions :: "expansion_result list"
  final_state :: expansion_state

definition analyze_with_expansion :: "'w env \<Rightarrow> expansion_cfg \<Rightarrow> 'w \<Rightarrow> string
    \<Rightarrow> string + (expansion_results \<times> 'w)" where
  "analyze_with_expansion e cfg w address =
     (case full_analysis e w address of (found, w1) \<Rightarrow>
      (let st1 = new_expansion\<lparr>initial_addresses := 1,
                                expanded_addresses := finsert (lower address) {||}\<rparr>
       in case found of
            None \<Rightarrow> Inr (\<lparr>initial_address = address, initial_analysis = None, expansions = [],
                           final_state = st1\<rparr>, w1)
          | Some a \<Rightarrow>
              if an_risk_score a \<ge> trigger_risk_score cfg
              then (case expand_from_address e cfg w1 st1 address 0 of
                      Inl err \<Rightarrow> Inl err
                    | Inr (found_expansions, w2, st2) \<Rightarrow>
                        Inr (\<lparr>initial_address = address, initial_analysis = Some a,
                              expansions = found_expansions, final_state = st2\<rparr>, w2))
              else Inr (\<lparr>initial_address = address, initial_analysis = Some a, expansions = [],
                         final_state = st1\<rparr>, w1)))"


section \<open>Notions used to state the properties\<close>

text \<open>
  The alert types that \<open>_calculate_quick_risk_score\<close> gives points for, and the other
  five keys of the pipeline's result.
\<close>

definition scored_types :: "string list" where
  "scored_types = [''structuring'', ''peel_chains'', ''mixer_activity'', ''taint'', ''circularity'']"

definition unscored_types :: "string list" where
  "unscored_types = [''velocity_alert'', ''dormant_reactivation'', ''round_amounts'',
                     ''timing_patterns'', ''wash_trading'']"

text \<open>\<open>len(analytics[k])\<close>, 0 for a missing key.\<close>

definition count_of :: "analytics \<Rightarrow> string \<Rightarrow> nat" where
  "count_of an k = (case map_of an k of None \<Rightarrow> 0 | Some found \<Rightarrow> length found)"

definition quick_points :: "analytics \<Rightarrow> real" where
  "quick_points an =
     real (min 30 (count_of an ''structuring'' * 15))
     + real (min 40 (count_of an ''peel_chains'' * 20))
     + real (min 50 (count_of an ''mixer_activity'' * 25))
     + real (min 40 (count_of an ''taint'' * 20))
     + real (min 35 (count_of an ''circularity'' * 15))"

text \<open>Every non-empty alert list of the result is under one of the five other keys.\<close>

definition only_unscored :: "analytics \<Rightarrow> bool" where
  "only_unscored an = (\<forall>(k, found) \<in> set an. found \<noteq> [] \<longrightarrow> k \<in> set unscored_types)"

text \<open>
  The loop invariant of \<open>crawl\<close>: the bound on \<open>visited\<close>, one log record for each
  visited address, lower-case keys, and worklist depths that are 0 (seeds) or between
  1 and \<open>max_depth\<close> (children).
\<close>

definition crawl_inv :: "crawler_cfg \<Rightarrow> crawler_state \<Rightarrow> bool" where
  "crawl_inv cfg st =
     (int (fcard (visited st)) \<le> max 0 (max_addresses cfg)
      \<and> distinct (map fst (analyzing_log st))
      \<and> fset (visited st) = set (map fst (analyzing_log st))
      \<and> (\<forall>a \<in> fset (visited st). lower a = a)
      \<and> (\<forall>(a, d) \<in> set (to_analyze st). lower a = a \<and> (d = 0 \<or> (1 \<le> d \<and> d \<le> max_depth cfg))))"

section \<open>Example inputs\<close>

text \<open>
  A store with one Address node that has two of its features set, two alerts for it
  and one alert for another address.
\<close>

definition scorer_example :: store where
  "scorer_example =
     \<lparr>addresses = [''0xa1'' \<mapsto> empty_node\<lparr>pagerank := Some 0.02, degree := Some 50\<rparr>],
      alerts = [((''MIXER_PATTERN'', ''0xa1'', 1000),
                 \<lparr>al_type = ''MIXER_PATTERN'', al_score = 60, al_details = [], al_created_at = 1000\<rparr>),
                ((''TAINT'', ''0xb2'', 1000),
                 \<lparr>al_type = ''TAINT'', al_score = 40, al_details = [], al_created_at = 1000\<rparr>),
                ((''CIRCULARITY'', ''0xa1'', 1001),
                 \<lparr>al_type = ''CIRCULARITY'', al_score = 20, al_details = [], al_created_at = 1001\<rparr>)],
      ticks = 0\<rparr>"

definition empty_view :: graph_view where
  "empty_view =
     \<lparr>received = (\<lambda>a. []), transfers = [],
      peel_rows = (\<lambda>a. []), mixer_rows = (\<lambda>a. []), taint_rows = (\<lambda>als a. []),
      velocity_rows = (\<lambda>since a. []), dormant_rows = (\<lambda>since a. []),
      round_rows = (\<lambda>since a. []), timing_rows = (\<lambda>since a. []),
      wash_rows = (\<lambda>since a. [])\<rparr>"

definition empty_store :: store where
  "empty_store = \<lparr>addresses = Map.empty, alerts = [], ticks = 0\<rparr>"

definition velocity_view :: graph_view where
  "velocity_view = empty_view\<lparr>velocity_rows := (\<lambda>since a. [(20, 3600)])\<rparr>"

definition pipeline_env :: "clock \<Rightarrow> graph_view \<Rightarrow> (string \<Rightarrow> string option list) \<Rightarrow> store env" where
  "pipeline_env clk gv neighbours =
     \<lparr>ingest_address = (\<lambda>w a lim. (Inr 1, w)),
      run_analytics = (\<lambda>w a. case run_all_analytics clk gv w a of (an, w') \<Rightarrow> (Inr an, w')),
      connected_rows = (\<lambda>w a min_value. Inr (neighbours a)),
      top_connected_rows = (\<lambda>w a min_value lim. Inr (neighbours a))\<rparr>"

definition crawler_example :: crawler_cfg where
  "crawler_example =
     \<lparr>seed_addresses = [''0xa''], max_depth = 2, min_transaction_value_eth = 1,
      min_risk_score_to_expand = 60, max_addresses = 10, transaction_limit_per_address = 1000\<rparr>"


definition figure_eight_view :: graph_view where
  "figure_eight_view =
     empty_view\<lparr>transfers := [(''0xa'', ''0xb''), (''0xb'', ''0xa''), (''0xa'', ''0xc''), (''0xc'', ''0xa'')]\<rparr>"

text \<open>
  A view in which every address has a peel chain, a mixer fan-in and one cycle (quick
  score 60), counterparty records with an upper-case, a null and an empty address, and
  a crawl from one seed.
\<close>

definition risky_view :: graph_view where
  "risky_view =
     empty_view\<lparr>transfers := [(''0xa'', ''0xb''), (''0xb'', ''0xc''), (''0xc'', ''0xa'')],
                mixer_rows := (\<lambda>a. [(20, 0)]),
                peel_rows := (\<lambda>a. [1])\<rparr>"

definition triangle_neighbours :: "string \<Rightarrow> string option list" where
  "triangle_neighbours a =
     (if a = ''0xa'' then [Some ''0xB'', None, Some [], Some ''0xc''] else [Some ''0xa''])"

definition crawl_example :: crawler_cfg where
  "crawl_example =
     \<lparr>seed_addresses = [''0xA''], max_depth = 1, min_transaction_value_eth = 1,
      min_risk_score_to_expand = 60, max_addresses = 10, transaction_limit_per_address = 1000\<rparr>"

definition crawl_env_example :: "store env" where
  "crawl_env_example = pipeline_env (\<lambda>k. int k) risky_view triangle_neighbours"




section \<open>Properties of the job registry\<close>

text \<open>
  C6. \<open>cancel_job\<close> returns false and changes nothing for an id that is not in the
  registry and for a job whose status is not \<open>started\<close>; for a \<open>started\<close> job it
  returns true and sets the status to \<open>cancelled\<close>, after which \<open>get_job_status\<close>
  reports \<open>cancelled\<close> and a second \<open>cancel_job\<close> returns false and changes nothing.
  It returns true in no other case.
\<close>

theorem cancel_job_only_started:
  fixes reg :: "'r registry"
  shows "(reg jid = None \<longrightarrow> cancel_job reg jid = (False, reg))
   \<and> (\<forall>job. reg jid = Some job \<and> status job \<noteq> Started \<longrightarrow> cancel_job reg jid = (False, reg))
   \<and> (\<forall>job. reg jid = Some job \<and> status job = Started \<longrightarrow>
          cancel_job reg jid = (True, reg(jid \<mapsto> job\<lparr>status := Cancelled, result := CancelMessage\<rparr>))
          \<and> map_option status (get_job_status (snd (cancel_job reg jid)) jid) = Some Cancelled
          \<and> cancel_job (snd (cancel_job reg jid)) jid = (False, snd (cancel_job reg jid)))
   \<and> (fst (cancel_job reg jid) \<longleftrightarrow> (\<exists>job. reg jid = Some job \<and> status job = Started))"
  by (auto simp: cancel_job_def get_job_status_def split: option.splits)

theorem cancel_job_only_started_witness:
  "fst (cancel_job (register_job (Map.empty :: nat registry) ''crawler_20240101_000000_1'' Crawler 0)
          ''crawler_20240101_000000_1'')
   \<and> map_option status
        (get_job_status
           (snd (cancel_job (register_job (Map.empty :: nat registry) ''crawler_20240101_000000_1'' Crawler 0)
                   ''crawler_20240101_000000_1''))
           ''crawler_20240101_000000_1'') = Some Cancelled
   \<and> \<not> fst (cancel_job
          (snd (cancel_job (register_job (Map.empty :: nat registry) ''crawler_20240101_000000_1'' Crawler 0)
                  ''crawler_20240101_000000_1''))
          ''crawler_20240101_000000_1'')
   \<and> \<not> fst (cancel_job (register_job (Map.empty :: nat registry) ''crawler_20240101_000000_1'' Crawler 0)
          ''monitor_20240101_000000_2'')"
  using cancel_job_only_started
          [of "register_job (Map.empty :: nat registry) ''crawler_20240101_000000_1'' Crawler 0"
              "''crawler_20240101_000000_1''"]
        cancel_job_only_started
          [of "register_job (Map.empty :: nat registry) ''crawler_20240101_000000_1'' Crawler 0"
              "''monitor_20240101_000000_2''"]
  by (simp add: register_job_def new_job_def cancel_job_def get_job_status_def)

text \<open>
  C9. When the worker of a registered job finishes, it writes \<open>completed\<close> (or
  \<open>failed\<close>, when the controller raised) whatever the status was. So for a job that
  was \<open>started\<close>, cancelled with success and whose worker finishes afterwards,
  \<open>get_job_status\<close> reports \<open>completed\<close> or \<open>failed\<close>, not \<open>cancelled\<close>. The worker's
  outcome is computed by \<open>run_crawler\<close>, \<open>start_monitor\<close> or
  \<open>analyze_with_auto_expansion\<close>, none of which receives the registry.
\<close>

theorem worker_overwrites_cancelled:
  fixes reg :: "'r registry"
  assumes "reg jid = Some job"
  shows "map_option status (get_job_status (run_worker_thread reg jid outcome now) jid)
           = Some (case outcome of Inl err \<Rightarrow> Failed | Inr r \<Rightarrow> Completed)
     \<and> (status job = Started \<longrightarrow>
           fst (cancel_job reg jid)
           \<and> map_option status (get_job_status (snd (cancel_job reg jid)) jid) = Some Cancelled
           \<and> map_option status
                (get_job_status (run_worker_thread (snd (cancel_job reg jid)) jid outcome now) jid)
               = Some (case outcome of Inl err \<Rightarrow> Failed | Inr r \<Rightarrow> Completed))"
  using assms
  by (auto simp: run_worker_thread_def cancel_job_def get_job_status_def split: option.splits sum.splits)

theorem worker_overwrites_cancelled_witness:
  "register_job (Map.empty :: nat registry) ''expansion_20240101_000000_1'' Expansion 0
       ''expansion_20240101_000000_1''
     = Some (new_job ''expansion_20240101_000000_1'' Expansion 0)
   \<and> status (new_job ''expansion_20240101_000000_1'' Expansion 0 :: nat job) = Started
   \<and> fst (cancel_job (register_job (Map.empty :: nat registry) ''expansion_20240101_000000_1'' Expansion 0)
            ''expansion_20240101_000000_1'')
   \<and> map_option status
        (get_job_status
           (run_worker_thread
              (snd (cancel_job (register_job (Map.empty :: nat registry) ''expansion_20240101_000000_1'' Expansion 0)
                      ''expansion_20240101_000000_1''))
              ''expansion_20240101_000000_1'' (Inr 7) 5)
           ''expansion_20240101_000000_1'') = Some Completed"
  using worker_overwrites_cancelled
          [of "register_job (Map.empty :: nat registry) ''expansion_20240101_000000_1'' Expansion 0"
              "''expansion_20240101_000000_1''"
              "new_job ''expansion_20240101_000000_1'' Expansion 0" "Inr 7" 5]
  by (simp add: register_job_def new_job_def)


section \<open>Properties of the Risk Scorer\<close>

lemma normalize_bounds: "0 \<le> normalize x lo hi \<and> normalize x lo hi \<le> 1"
proof (cases "hi \<le> lo")
  case True
  then show ?thesis by (simp add: normalize_def)
next
  case False
  then have pos: "0 < hi - lo" by simp
  have a: "lo \<le> max lo (min hi x)" by simp
  have b: "max lo (min hi x) \<le> hi" using False by simp
  have "0 \<le> (max lo (min hi x) - lo) / (hi - lo)" using a pos by simp
  moreover have "(max lo (min hi x) - lo) / (hi - lo) \<le> 1" using b pos by simp
  ultimately show ?thesis using False by (simp add: normalize_def)
qed

lemma normalize_saturates: "lo < hi \<Longrightarrow> hi \<le> x \<Longrightarrow> normalize x lo hi = 1"
  by (simp add: normalize_def)

lemma merge_alert_count:
  "length (filter (\<lambda>((ty, a, now), al). a = address) (merge_alert als aid ty' sc det now'))
     \<ge> length (filter (\<lambda>((ty, a, now), al). a = address) als)"
  by (induction als) (auto split: prod.splits)

lemma alerts_bonus_mono: "n \<le> m \<Longrightarrow> alerts_bonus n \<le> alerts_bonus m"
  by (simp add: alerts_bonus_def)

lemma combine_score_mono: "n \<le> m \<Longrightarrow> combine_score b n \<le> combine_score b m"
  using alerts_bonus_mono[of n m] by (simp add: combine_score_def)

lemma combine_score_bounds: "0 \<le> combine_score b n \<and> combine_score b n \<le> 100"
  by (simp add: combine_score_def)


lemma base_score_expand:
  "base_score n =
     30 * normalize (coalesce (pagerank n) 0) 0 0.01
     + 15 * normalize (coalesce (degree n) 0) 0 100
     + 10 * normalize (coalesce (inDegree n) 0) 0 60
     + 10 * normalize (coalesce (outDegree n) 0) 0 60
     + 15 * normalize (coalesce (triangles n) 0) 0 50"
  by (simp add: base_score_def Let_def)

lemma risk_score_present:
  "addresses s address = Some n \<Longrightarrow>
     get_address_risk_score s address =
       (combine_score (base_score n) (alert_count s address),
        s\<lparr>addresses := (addresses s)
             (address \<mapsto> n\<lparr>risk_score := Some (combine_score (base_score n) (alert_count s address))\<rparr>)\<rparr>)"
  by (simp add: get_address_risk_score_def Let_def)

lemma risk_score_absent:
  "addresses s address = None \<Longrightarrow> get_address_risk_score s address = (0, s)"
  by (simp add: get_address_risk_score_def)

lemma risk_score_bounds:
  "0 \<le> fst (get_address_risk_score s address) \<and> fst (get_address_risk_score s address) \<le> 100"
  using combine_score_bounds
  by (cases "addresses s address") (simp_all add: risk_score_present risk_score_absent)

text \<open>
  C4. For an address with a node, the Risk Scorer returns base plus bonus clamped to
  \<open>[0, 100]\<close>: the base weights the normalized pagerank (saturating at 0.01), degree,
  in-degree, out-degree and triangle count with 30, 15, 10, 10 and 15, each absent
  feature counting as 0, and the bonus is \<open>min(40, 10 * alerts)\<close>; the score is written
  to the node's \<open>risk_score\<close>. For an address with no node it returns 0 and writes
  nothing. The result is in \<open>[0, 100]\<close> in both cases.
\<close>

theorem risk_score_formula:
  "(\<forall>n. addresses s address = Some n \<longrightarrow>
      fst (get_address_risk_score s address)
        = max 0 (min 100
            (30 * normalize (coalesce (pagerank n) 0) 0 0.01
             + 15 * normalize (coalesce (degree n) 0) 0 100
             + 10 * normalize (coalesce (inDegree n) 0) 0 60
             + 10 * normalize (coalesce (outDegree n) 0) 0 60
             + 15 * normalize (coalesce (triangles n) 0) 0 50
             + real (min 40 (alert_count s address * 10))))
      \<and> snd (get_address_risk_score s address)
          = s\<lparr>addresses := (addresses s)
                 (address \<mapsto> n\<lparr>risk_score := Some (fst (get_address_risk_score s address))\<rparr>)\<rparr>)
   \<and> (addresses s address = None \<longrightarrow> get_address_risk_score s address = (0, s))
   \<and> 0 \<le> fst (get_address_risk_score s address)
   \<and> fst (get_address_risk_score s address) \<le> 100
   \<and> coalesce None 0 = 0
   \<and> normalize (max x 0.01) 0 0.01 = 1
   \<and> 0 \<le> normalize x lo hi \<and> normalize x lo hi \<le> 1"
proof -
  have present: "\<forall>n. addresses s address = Some n \<longrightarrow>
      fst (get_address_risk_score s address)
        = max 0 (min 100
            (30 * normalize (coalesce (pagerank n) 0) 0 0.01
             + 15 * normalize (coalesce (degree n) 0) 0 100
             + 10 * normalize (coalesce (inDegree n) 0) 0 60
             + 10 * normalize (coalesce (outDegree n) 0) 0 60
             + 15 * normalize (coalesce (triangles n) 0) 0 50
             + real (min 40 (alert_count s address * 10))))
      \<and> snd (get_address_risk_score s address)
          = s\<lparr>addresses := (addresses s)
                 (address \<mapsto> n\<lparr>risk_score := Some (fst (get_address_risk_score s address))\<rparr>)\<rparr>"
  proof (intro allI impI)
    fix n assume n: "addresses s address = Some n"
    show "fst (get_address_risk_score s address)
        = max 0 (min 100
            (30 * normalize (coalesce (pagerank n) 0) 0 0.01
             + 15 * normalize (coalesce (degree n) 0) 0 100
             + 10 * normalize (coalesce (inDegree n) 0) 0 60
             + 10 * normalize (coalesce (outDegree n) 0) 0 60
             + 15 * normalize (coalesce (triangles n) 0) 0 50
             + real (min 40 (alert_count s address * 10))))
      \<and> snd (get_address_risk_score s address)
          = s\<lparr>addresses := (addresses s)
                 (address \<mapsto> n\<lparr>risk_score := Some (fst (get_address_risk_score s address))\<rparr>)\<rparr>"
      unfolding risk_score_present[OF n] fst_conv snd_conv combine_score_def alerts_bonus_def
        base_score_expand
      by simp
  qed
  have sat: "normalize (max x 0.01) 0 0.01 = 1"
    by (rule normalize_saturates) simp_all
  have co: "coalesce None 0 = 0" by (simp add: coalesce_def)
  show ?thesis
    using present risk_score_absent[of s address] risk_score_bounds[of s address] sat co
      normalize_bounds[of x lo hi]
    by blast
qed


theorem risk_score_formula_witness:
  "addresses scorer_example ''0xa1'' = Some (empty_node\<lparr>pagerank := Some 0.02, degree := Some 50\<rparr>)
   \<and> fst (get_address_risk_score scorer_example ''0xa1'') = 57.5
   \<and> map_option risk_score (addresses (snd (get_address_risk_score scorer_example ''0xa1'')) ''0xa1'')
       = Some (Some 57.5)
   \<and> addresses scorer_example ''0xc3'' = None
   \<and> get_address_risk_score scorer_example ''0xc3'' = (0, scorer_example)"
proof -
  have n: "addresses scorer_example ''0xa1'' = Some (empty_node\<lparr>pagerank := Some 0.02, degree := Some 50\<rparr>)"
    by (simp add: scorer_example_def)
  have c: "alert_count scorer_example ''0xa1'' = 2"
    by (simp add: alert_count_def scorer_example_def)
  have v: "fst (get_address_risk_score scorer_example ''0xa1'') = 57.5"
    using risk_score_formula[of scorer_example "''0xa1''"] n c
    by (simp add: empty_node_def coalesce_def normalize_def)
  have m: "addresses scorer_example ''0xc3'' = None"
    by (simp add: scorer_example_def)
  show ?thesis
    using risk_score_formula[of scorer_example "''0xa1''"] risk_score_formula[of scorer_example "''0xc3''"]
      n v m
    by simp
qed

text \<open>
  C7. Creating one more alert for an address, whatever its type and score, never
  lowers the score the Risk Scorer computes next for that address; the score is
  non-decreasing in the number of alerts.
\<close>

theorem risk_score_monotone:
  "fst (get_address_risk_score s address)
     \<le> fst (get_address_risk_score (create_alert clk s address alert_type score details) address)
   \<and> combine_score base n \<le> combine_score base (n + k)"
proof
  let ?s' = "create_alert clk s address alert_type score details"
  have cnt: "alert_count s address \<le> alert_count ?s' address"
    unfolding alert_count_def create_alert_def Let_def
    using merge_alert_count by simp
  show "fst (get_address_risk_score s address) \<le> fst (get_address_risk_score ?s' address)"
  proof (cases "addresses s address")
    case None
    then show ?thesis
      using risk_score_bounds[of ?s' address] by (simp add: risk_score_absent)
  next
    case (Some n)
    have n': "addresses ?s' address = Some (n\<lparr>last_alert_ts := Some (clk (ticks s)), has_alert := True\<rparr>)"
      using Some by (simp add: create_alert_def Let_def merge_address_def)
    have b: "base_score (n\<lparr>last_alert_ts := Some (clk (ticks s)), has_alert := True\<rparr>) = base_score n"
      by (simp add: base_score_def)
    show ?thesis
      using combine_score_mono[OF cnt, of "base_score n"]
      by (simp add: risk_score_present[OF Some] risk_score_present[OF n'] b)
  qed
next
  show "combine_score base n \<le> combine_score base (n + k)"
    by (rule combine_score_mono) simp
qed


section \<open>Properties of the Circularity detector\<close>


text \<open>
  Two round trips through the address are four matches of the pattern: each round
  trip alone, and the two closed paths of length 4 that run through both.
\<close>

lemma figure_eight_cycles: "count_cycles figure_eight_view ''0xa'' = 4"
  by (simp add: count_cycles_def figure_eight_view_def empty_view_def numeral_2_eq_2 numeral_3_eq_3
        eval_nat_numeral upt_rec)




section \<open>Properties of the crawler's quick risk score\<close>

lemma quick_item_unscored:
  "k \<notin> set scored_types \<or> found = [] \<Longrightarrow> quick_item k found score = score"
  unfolding quick_item_def scored_types_def by (elim disjE) simp_all

lemma quick_loop_add: "quick_loop an (score + d) = quick_loop an score + d"
proof (induction an arbitrary: score)
  case Nil
  then show ?case by simp
next
  case (Cons kv an)
  obtain k found where kv: "kv = (k, found)" by (cases kv)
  have "quick_item k found (score + d) = quick_item k found score + d"
    by (simp add: quick_item_def)
  then show ?case using Cons.IH kv by simp
qed

lemma quick_loop_unscored:
  "\<forall>(k, found) \<in> set an. found \<noteq> [] \<longrightarrow> k \<notin> set scored_types \<Longrightarrow> quick_loop an score = score"
proof (induction an arbitrary: score)
  case Nil
  then show ?case by simp
next
  case (Cons kv an)
  obtain k found where kv: "kv = (k, found)" by (cases kv)
  have "quick_item k found score = score"
    using Cons.prems kv by (intro quick_item_unscored) auto
  then show ?case using Cons kv by simp
qed

lemma count_of_Cons:
  "count_of ((k', found) # an) k = (if k = k' then length found else count_of an k)"
  by (simp add: count_of_def)

lemma count_of_Cons_neq: "k \<noteq> q \<Longrightarrow> count_of ((k, found) # an) q = count_of an q"
  by (simp add: count_of_def)

lemma count_of_missing: "k \<notin> fst ` set an \<Longrightarrow> count_of an k = 0"
proof -
  assume "k \<notin> fst ` set an"
  then have "map_of an k = None" by (simp add: map_of_eq_None_iff)
  then show ?thesis by (simp add: count_of_def)
qed

lemma quick_points_Cons_structuring:
  "count_of an ''structuring'' = 0 \<Longrightarrow>
     quick_points ((''structuring'', found) # an) = quick_points an + quick_item ''structuring'' found 0"
  by (simp add: quick_points_def quick_item_def count_of_Cons)

lemma quick_points_Cons_peel_chains:
  "count_of an ''peel_chains'' = 0 \<Longrightarrow>
     quick_points ((''peel_chains'', found) # an) = quick_points an + quick_item ''peel_chains'' found 0"
  by (simp add: quick_points_def quick_item_def count_of_Cons)

lemma quick_points_Cons_mixer_activity:
  "count_of an ''mixer_activity'' = 0 \<Longrightarrow>
     quick_points ((''mixer_activity'', found) # an) = quick_points an + quick_item ''mixer_activity'' found 0"
  by (simp add: quick_points_def quick_item_def count_of_Cons)

lemma quick_points_Cons_taint:
  "count_of an ''taint'' = 0 \<Longrightarrow>
     quick_points ((''taint'', found) # an) = quick_points an + quick_item ''taint'' found 0"
  by (simp add: quick_points_def quick_item_def count_of_Cons)

lemma quick_points_Cons_circularity:
  "count_of an ''circularity'' = 0 \<Longrightarrow>
     quick_points ((''circularity'', found) # an) = quick_points an + quick_item ''circularity'' found 0"
  by (simp add: quick_points_def quick_item_def count_of_Cons)

lemma quick_loop_points:
  "distinct (map fst an) \<Longrightarrow> quick_loop an 0 = quick_points an"
proof (induction an)
  case Nil
  then show ?case by (simp add: quick_points_def count_of_def)
next
  case (Cons kv an)
  obtain k found where kv: "kv = (k, found)" by (cases kv)
  have miss: "count_of an k = 0"
    using Cons.prems kv by (intro count_of_missing) auto
  have ih: "quick_loop an 0 = quick_points an" using Cons by simp
  have "quick_loop (kv # an) 0 = quick_loop an (0 + quick_item k found 0)"
    using kv by simp
  also have "\<dots> = quick_points an + quick_item k found 0"
    unfolding quick_loop_add using ih by simp
  also have "\<dots> = quick_points ((k, found) # an)"
  proof (cases "k \<in> set scored_types")
    case False
    then have qi: "quick_item k found 0 = 0" by (simp add: quick_item_unscored)
    have ne: "k \<noteq> ''structuring''" "k \<noteq> ''peel_chains''" "k \<noteq> ''mixer_activity''"
      "k \<noteq> ''taint''" "k \<noteq> ''circularity''"
      using False unfolding scored_types_def by simp_all
    have "quick_points ((k, found) # an) = quick_points an"
      unfolding quick_points_def
      by (simp only: count_of_Cons_neq[OF ne(1)] count_of_Cons_neq[OF ne(2)]
            count_of_Cons_neq[OF ne(3)] count_of_Cons_neq[OF ne(4)] count_of_Cons_neq[OF ne(5)])
    then show ?thesis using qi by simp
  next
    case True
    then have "k = ''structuring'' \<or> k = ''peel_chains'' \<or> k = ''mixer_activity''
        \<or> k = ''taint'' \<or> k = ''circularity''"
      unfolding scored_types_def by simp
    then show ?thesis
    proof (elim disjE)
      assume k: "k = ''structuring''"
      show ?thesis using miss unfolding k by (rule quick_points_Cons_structuring[symmetric])
    next
      assume k: "k = ''peel_chains''"
      show ?thesis using miss unfolding k by (rule quick_points_Cons_peel_chains[symmetric])
    next
      assume k: "k = ''mixer_activity''"
      show ?thesis using miss unfolding k by (rule quick_points_Cons_mixer_activity[symmetric])
    next
      assume k: "k = ''taint''"
      show ?thesis using miss unfolding k by (rule quick_points_Cons_taint[symmetric])
    next
      assume k: "k = ''circularity''"
      show ?thesis using miss unfolding k by (rule quick_points_Cons_circularity[symmetric])
    qed
  qed
  finally show ?case using kv by simp
qed


lemma unscored_not_scored: "k \<in> set unscored_types \<Longrightarrow> k \<notin> set scored_types"
  unfolding unscored_types_def scored_types_def
  by (elim set_ConsD[elim_format] disjE) simp_all

lemma quick_score_points:
  "distinct (map fst an) \<Longrightarrow> calculate_quick_risk_score an = min 100 (quick_points an)"
  by (simp add: calculate_quick_risk_score_def quick_loop_points)

lemma quick_score_unscored: "only_unscored an \<Longrightarrow> calculate_quick_risk_score an = 0"
proof -
  assume u: "only_unscored an"
  have "\<forall>(k, found) \<in> set an. found \<noteq> [] \<longrightarrow> k \<notin> set scored_types"
    using u unscored_not_scored unfolding only_unscored_def by fast
  then have "quick_loop an 0 = 0" by (rule quick_loop_unscored)
  then show ?thesis by (simp add: calculate_quick_risk_score_def)
qed

lemma analyze_address_keeps:
  "analyze_address e cfg w st address depth = (r, w', st')
     \<Longrightarrow> suspicious_found st' = suspicious_found st \<and> visited st' = visited st
         \<and> to_analyze st' = to_analyze st"
  unfolding analyze_address_def Let_def
  by (auto split: prod.splits sum.splits if_splits)

lemma analyze_address_unscored:
  assumes "\<forall>w1 an w2. run_analytics e w1 address = (Inr an, w2) \<longrightarrow> only_unscored an"
  shows "fst (analyze_address e cfg w st address depth) = None"
proof (cases "ingest_address e w address (transaction_limit_per_address cfg)")
  case (Pair ing w1)
  show ?thesis
  proof (cases ing)
    case (Inl err)
    then show ?thesis using Pair by (simp add: analyze_address_def)
  next
    case (Inr ingested)
    show ?thesis
    proof (cases "run_analytics e w1 address")
      case (Pair ran w2)
      note ra = this
      show ?thesis
      proof (cases ran)
        case (Inl err)
        then show ?thesis
          using \<open>ingest_address e w address (transaction_limit_per_address cfg) = (ing, w1)\<close> Inr ra
          by (simp add: analyze_address_def calculate_quick_risk_score_def)
      next
        case (Inr an)
        then have "run_analytics e w1 address = (Inr an, w2)" using ra by simp
        then have "only_unscored an" using assms by blast
        then have "calculate_quick_risk_score an = 0" by (rule quick_score_unscored)
        then show ?thesis
          using \<open>ingest_address e w address (transaction_limit_per_address cfg) = (ing, w1)\<close>
            \<open>ing = Inr ingested\<close> ra Inr
          by (simp add: analyze_address_def)
      qed
    qed
  qed
qed

lemma crawl_step_unscored:
  assumes u: "\<forall>w1 an w2. run_analytics e w1 address = (Inr an, w2) \<longrightarrow> only_unscored an"
    and q: "to_analyze st = (address, depth) # rest"
  shows "to_analyze (snd (crawl_step e cfg (w, st))) = rest
       \<and> suspicious_found (snd (crawl_step e cfg (w, st))) = suspicious_found st"
proof (cases "address |\<in>| visited st \<or> depth > max_depth cfg")
  case True
  show ?thesis by (simp add: crawl_step_skip[OF q True])
next
  case False
  let ?st1 = "st\<lparr>to_analyze := rest, analyzing_log := analyzing_log st @ [(address, depth)],
                  visited := finsert address (visited st)\<rparr>"
  obtain res w1 st2 where an: "analyze_address e cfg w ?st1 address depth = (res, w1, st2)"
    by (cases "analyze_address e cfg w ?st1 address depth") auto
  have "res = None"
    using analyze_address_unscored[OF u, of cfg w ?st1 depth] an by simp
  then show ?thesis
    using analyze_address_keeps[OF an]
    by (simp add: crawl_step_analyze[OF q False an])
qed

text \<open>
  C10. The quick risk score is determined by the numbers of alerts under the five
  keys \<open>structuring\<close>, \<open>peel_chains\<close>, \<open>mixer_activity\<close>, \<open>taint\<close> and
  \<open>circularity\<close>. When every non-empty alert list is under one of the other five
  keys the score is 0; then \<open>_analyze_address\<close> returns \<open>None\<close>, and the pass of the
  crawl loop records nothing as suspicious and queues no counterparty.
\<close>

theorem quick_score_five_types:
  "(distinct (map fst an) \<and> distinct (map fst an')
      \<and> (\<forall>k \<in> set scored_types. count_of an k = count_of an' k)
      \<longrightarrow> calculate_quick_risk_score an = calculate_quick_risk_score an')
   \<and> (only_unscored an \<longrightarrow> calculate_quick_risk_score an = 0)
   \<and> ((\<forall>w1 found w2. run_analytics e w1 address = (Inr found, w2) \<longrightarrow> only_unscored found) \<longrightarrow>
        fst (analyze_address e cfg w st address depth) = None
        \<and> (to_analyze st = (address, depth) # rest \<longrightarrow>
             to_analyze (snd (crawl_step e cfg (w, st))) = rest
             \<and> suspicious_found (snd (crawl_step e cfg (w, st))) = suspicious_found st))"
proof (intro conjI impI)
  assume a: "distinct (map fst an) \<and> distinct (map fst an')
      \<and> (\<forall>k \<in> set scored_types. count_of an k = count_of an' k)"
  then have "quick_points an = quick_points an'"
    by (simp add: quick_points_def scored_types_def)
  then show "calculate_quick_risk_score an = calculate_quick_risk_score an'"
    using a by (simp add: quick_score_points)
next
  assume "only_unscored an"
  then show "calculate_quick_risk_score an = 0" by (rule quick_score_unscored)
next
  assume u: "\<forall>w1 found w2. run_analytics e w1 address = (Inr found, w2) \<longrightarrow> only_unscored found"
  show "fst (analyze_address e cfg w st address depth) = None"
    by (rule analyze_address_unscored[OF u])
next
  assume u: "\<forall>w1 found w2. run_analytics e w1 address = (Inr found, w2) \<longrightarrow> only_unscored found"
    and q: "to_analyze st = (address, depth) # rest"
  show "to_analyze (snd (crawl_step e cfg (w, st))) = rest"
    using crawl_step_unscored[OF u q] by simp
next
  assume u: "\<forall>w1 found w2. run_analytics e w1 address = (Inr found, w2) \<longrightarrow> only_unscored found"
    and q: "to_analyze st = (address, depth) # rest"
  show "suspicious_found (snd (crawl_step e cfg (w, st))) = suspicious_found st"
    using crawl_step_unscored[OF u q] by simp
qed


lemma velocity_view_analytics:
  "fst (run_all_analytics clk velocity_view s a) =
     [(''structuring'', []), (''peel_chains'', []), (''mixer_activity'', []),
      (''taint'', []), (''circularity'', []), (''velocity_alert'', [(a, 40)]),
      (''dormant_reactivation'', []), (''round_amounts'', []),
      (''timing_patterns'', []), (''wash_trading'', [])]"
  by (simp add: run_all_analytics_def velocity_view_def empty_view_def
        detect_structuring_def structuring_query_def detect_peel_chains_def
        find_mixer_activity_def run_taint_analysis_def find_circular_txns_def circular_query_def
        count_cycles_def detect_velocity_alert_def velocity_query_def txs_per_hour_of_def
        velocity_score_def detect_dormant_reactivation_def dormant_query_def
        detect_round_amounts_def round_query_def detect_timing_patterns_def timing_query_def
        detect_wash_trading_def read_seconds_def results_of_def Let_def split_def
        numeral_2_eq_2 numeral_3_eq_3 eval_nat_numeral)


lemma velocity_view_unscored:
  "\<forall>w1 found w2. run_analytics (pipeline_env clk velocity_view nb) w1 ''0xa'' = (Inr found, w2)
      \<longrightarrow> only_unscored found"
proof (intro allI impI)
  fix w1 found w2
  assume r: "run_analytics (pipeline_env clk velocity_view nb) w1 ''0xa'' = (Inr found, w2)"
  then have "found = fst (run_all_analytics clk velocity_view w1 ''0xa'')"
    by (simp add: pipeline_env_def split: prod.splits)
  then show "only_unscored found"
    unfolding velocity_view_analytics only_unscored_def unscored_types_def by simp
qed

theorem quick_score_five_types_witness:
  "calculate_quick_risk_score [(''structuring'', [(''0xa'', 20)]), (''velocity_alert'', [(''0xa'', 40)])]
     = calculate_quick_risk_score [(''wash_trading'', []), (''structuring'', [(''0xa'', 28)])]
   \<and> only_unscored (fst (run_all_analytics (\<lambda>k. 0) velocity_view empty_store ''0xa''))
   \<and> calculate_quick_risk_score (fst (run_all_analytics (\<lambda>k. 0) velocity_view empty_store ''0xa'')) = 0
   \<and> fst (analyze_address (pipeline_env (\<lambda>k. 0) velocity_view (\<lambda>a. [Some ''0xb'']))
            crawler_example empty_store (seed_queue crawler_example new_crawler) ''0xa'' 0) = None
   \<and> to_analyze (seed_queue crawler_example new_crawler) = [(''0xa'', 0)]
   \<and> to_analyze (snd (crawl_step (pipeline_env (\<lambda>k. 0) velocity_view (\<lambda>a. [Some ''0xb'']))
                          crawler_example (empty_store, seed_queue crawler_example new_crawler))) = []
   \<and> suspicious_found (snd (crawl_step (pipeline_env (\<lambda>k. 0) velocity_view (\<lambda>a. [Some ''0xb'']))
                          crawler_example (empty_store, seed_queue crawler_example new_crawler))) = []"
proof -
  have d: "distinct (map fst [(''structuring'', [(''0xa'', 20::real)]), (''velocity_alert'', [(''0xa'', 40)])])
      \<and> distinct (map fst [(''wash_trading'', []), (''structuring'', [(''0xa'', 28::real)])])
      \<and> (\<forall>k \<in> set scored_types.
            count_of [(''structuring'', [(''0xa'', 20)]), (''velocity_alert'', [(''0xa'', 40)])] k
            = count_of [(''wash_trading'', []), (''structuring'', [(''0xa'', 28)])] k)"
    by (simp add: scored_types_def count_of_def)
  have u: "only_unscored (fst (run_all_analytics (\<lambda>k. 0) velocity_view empty_store ''0xa''))"
    unfolding velocity_view_analytics only_unscored_def unscored_types_def by simp
  have q: "to_analyze (seed_queue crawler_example new_crawler) = [(''0xa'', 0)]"
    by (simp add: seed_queue_def crawler_example_def new_crawler_def lower_def lower_char_def)
  have s: "suspicious_found (seed_queue crawler_example new_crawler) = []"
    by (simp add: seed_queue_def new_crawler_def)
  note t1 = quick_score_five_types
            [of "[(''structuring'', [(''0xa'', 20)]), (''velocity_alert'', [(''0xa'', 40)])]"
                "[(''wash_trading'', []), (''structuring'', [(''0xa'', 28)])]"
                "pipeline_env (\<lambda>k. 0) velocity_view (\<lambda>a. [Some ''0xb''])" "''0xa''"
                crawler_example empty_store "seed_queue crawler_example new_crawler" 0 "[]"]
  note t2 = quick_score_five_types
            [of "fst (run_all_analytics (\<lambda>k. 0) velocity_view empty_store ''0xa'')"
                "[]" "pipeline_env (\<lambda>k. 0) velocity_view (\<lambda>a. [Some ''0xb''])" "''0xa''"
                crawler_example empty_store "seed_queue crawler_example new_crawler" 0 "[]"]
  note v = velocity_view_unscored[of "\<lambda>k. 0" "\<lambda>a. [Some ''0xb'']"]
  have c1: "calculate_quick_risk_score [(''structuring'', [(''0xa'', 20)]), (''velocity_alert'', [(''0xa'', 40)])]
     = calculate_quick_risk_score [(''wash_trading'', []), (''structuring'', [(''0xa'', 28)])]"
    by (rule t1[THEN conjunct1, THEN mp, OF d])
  have c2: "calculate_quick_risk_score (fst (run_all_analytics (\<lambda>k. 0) velocity_view empty_store ''0xa'')) = 0"
    by (rule t2[THEN conjunct2, THEN conjunct1, THEN mp, OF u])
  note c3 = t2[THEN conjunct2, THEN conjunct2, THEN mp, OF v]
  note c4 = c3[THEN conjunct2, THEN mp, OF q]
  show ?thesis
    using c1 u c2 c3[THEN conjunct1] q c4 s by simp
qed


section \<open>Properties of the crawler\<close>

lemma crawl_loop_last: "crawl_loop e cfg wst = last (crawl_trace e cfg wst)"
proof (induction e cfg wst rule: crawl_trace.induct)
  case (1 e cfg wst)
  show ?case
  proof (cases "to_analyze (snd wst) \<noteq> [] \<and> int (fcard (visited (snd wst))) < max_addresses cfg")
    case True
    have ne: "crawl_trace e cfg (crawl_step e cfg wst) \<noteq> []"
      by (subst crawl_trace.simps) simp
    show ?thesis
      using True 1[OF True] ne
      by (subst crawl_loop.simps, subst crawl_trace.simps) simp
  next
    case False
    then show ?thesis
      by (subst crawl_loop.simps, subst crawl_trace.simps) auto
  qed
qed

lemma lower_char_idem: "lower_char (lower_char c) = lower_char c"
proof -
  have r: "of_char (char_of (of_char c + 32 :: nat)) = (of_char c + 32 :: nat)"
    if "(of_char c :: nat) \<le> 90"
    using that by (simp add: of_char_of)
  show ?thesis
  proof (cases "65 \<le> (of_char c :: nat) \<and> (of_char c :: nat) \<le> 90")
    case True
    then show ?thesis using r by (simp add: lower_char_def Let_def)
  next
    case False
    then have "lower_char c = c" by (auto simp: lower_char_def Let_def)
    then show ?thesis by simp
  qed
qed

lemma lower_idem: "lower (lower s) = lower s"
  by (simp add: lower_def lower_char_idem)


lemma lowered_addresses_lower: "c \<in> set (lowered_addresses records) \<Longrightarrow> lower c = c"
  by (auto simp: lowered_addresses_def lower_idem)

lemma analyze_address_log:
  "analyze_address e cfg w st address depth = (r, w', st')
     \<Longrightarrow> analyzing_log st' = analyzing_log st"
  unfolding analyze_address_def Let_def
  by (auto split: prod.splits sum.splits if_splits)

lemma crawl_step_visit_shape:
  assumes q: "to_analyze st = (address, depth) # rest"
    and nv: "\<not> (address |\<in>| visited st \<or> depth > max_depth cfg)"
  shows "\<exists>children. to_analyze (snd (crawl_step e cfg (w, st)))
                       = rest @ map (\<lambda>c. (c, depth + 1)) children
           \<and> (children \<noteq> [] \<longrightarrow> depth < max_depth cfg)
           \<and> (\<forall>c \<in> set children. lower c = c)
           \<and> visited (snd (crawl_step e cfg (w, st))) = finsert address (visited st)
           \<and> analyzing_log (snd (crawl_step e cfg (w, st))) = analyzing_log st @ [(address, depth)]"
proof -
  let ?st1 = "st\<lparr>to_analyze := rest, analyzing_log := analyzing_log st @ [(address, depth)],
                  visited := finsert address (visited st)\<rparr>"
  obtain res w1 st2 where an: "analyze_address e cfg w ?st1 address depth = (res, w1, st2)"
    by (cases "analyze_address e cfg w ?st1 address depth") auto
  have f: "visited st2 = finsert address (visited st)" "to_analyze st2 = rest"
    "analyzing_log st2 = analyzing_log st @ [(address, depth)]"
    using analyze_address_fields[OF an] analyze_address_log[OF an] by simp_all
  note step = crawl_step_analyze[OF q nv an]
  have none: ?thesis
    if n: "to_analyze (snd (crawl_step e cfg (w, st))) = rest"
      "visited (snd (crawl_step e cfg (w, st))) = finsert address (visited st)"
      "analyzing_log (snd (crawl_step e cfg (w, st))) = analyzing_log st @ [(address, depth)]"
    by (rule exI[of _ "[]"]) (simp add: n)
  show ?thesis
  proof (cases res)
    case None
    show ?thesis
      by (rule none) (simp_all add: step None f)
  next
    case (Some r)
    show ?thesis
    proof (cases "sus_risk_score r \<ge> min_risk_score_to_expand cfg \<and> depth < max_depth cfg")
      case False
      show ?thesis
      proof -
        have eq: "crawl_step e cfg (w, st) =
            (w1, st2\<lparr>suspicious_found := suspicious_found st2 @ [r],
                      suspicious_count := suspicious_count st2 + 1,
                      addresses_analyzed := addresses_analyzed st2 + 1\<rparr>)"
          unfolding step Some by (simp only: option.case Let_def if_not_P[OF False]) simp
        show ?thesis by (rule none) (simp_all add: eq f)
      qed
    next
      case True
      show ?thesis
      proof (cases "get_connected_addresses e cfg w1 address")
        case (Inl err)
        show ?thesis
          using True by (intro none) (simp_all add: step Some f Let_def Inl)
      next
        case (Inr conn_addrs)
        let ?children = "filter (\<lambda>conn. conn |\<notin>| finsert address (visited st)) conn_addrs"
        have "\<exists>records. conn_addrs = lowered_addresses records"
          using Inr by (cases "connected_rows e w1 address (min_transaction_value_eth cfg)")
            (auto simp: get_connected_addresses_def)
        then obtain records where rec: "conn_addrs = lowered_addresses records" ..
        have low: "\<forall>c \<in> set ?children. lower c = c"
          using lowered_addresses_lower rec by auto
        have t: "to_analyze (snd (crawl_step e cfg (w, st))) = rest @ map (\<lambda>c. (c, depth + 1)) ?children"
          using True by (simp add: step Some f Let_def Inr enqueue_connected_def)
        have v: "visited (snd (crawl_step e cfg (w, st))) = finsert address (visited st)"
          using True by (simp add: step Some f Let_def Inr enqueue_connected_def)
        have l: "analyzing_log (snd (crawl_step e cfg (w, st))) = analyzing_log st @ [(address, depth)]"
          using True by (simp add: step Some f Let_def Inr enqueue_connected_def)
        show ?thesis
          apply (rule exI[of _ ?children])
          using t v l low True by simp
      qed
    qed
  qed
qed

lemma crawl_inv_init: "crawl_inv cfg (seed_queue cfg new_crawler)"
  by (auto simp: crawl_inv_def seed_queue_def new_crawler_def lower_idem fcard_fempty)

lemma crawl_inv_step:
  assumes inv: "crawl_inv cfg st"
    and ne: "to_analyze st \<noteq> []"
    and lt: "int (fcard (visited st)) < max_addresses cfg"
  shows "crawl_inv cfg (snd (crawl_step e cfg (w, st)))"
proof -
  obtain address depth rest where q: "to_analyze st = (address, depth) # rest"
    using ne by (cases "to_analyze st") auto
  have hd: "lower address = address" "depth = 0 \<or> (1 \<le> depth \<and> depth \<le> max_depth cfg)"
    and tl: "\<forall>(a, d) \<in> set rest. lower a = a \<and> (d = 0 \<or> (1 \<le> d \<and> d \<le> max_depth cfg))"
    using inv q by (auto simp: crawl_inv_def)
  show ?thesis
  proof (cases "address |\<in>| visited st \<or> depth > max_depth cfg")
    case True
    show ?thesis
      using inv tl by (simp add: crawl_step_skip[OF q True] crawl_inv_def)
  next
    case False
    obtain children where
      t: "to_analyze (snd (crawl_step e cfg (w, st))) = rest @ map (\<lambda>c. (c, depth + 1)) children"
      and c: "children \<noteq> [] \<longrightarrow> depth < max_depth cfg"
      and l: "\<forall>c \<in> set children. lower c = c"
      and v: "visited (snd (crawl_step e cfg (w, st))) = finsert address (visited st)"
      and g: "analyzing_log (snd (crawl_step e cfg (w, st))) = analyzing_log st @ [(address, depth)]"
      using crawl_step_visit_shape[OF q False, of e w] by blast
    have nv: "address |\<notin>| visited st" using False by simp
    have card: "int (fcard (visited (snd (crawl_step e cfg (w, st))))) \<le> max 0 (max_addresses cfg)"
      using lt nv by (simp add: v fcard_finsert_disjoint)
    have notin: "address \<notin> set (map fst (analyzing_log st))"
      using nv inv by (simp add: crawl_inv_def)
    have dist: "distinct (map fst (analyzing_log (snd (crawl_step e cfg (w, st)))))"
      using inv notin by (simp add: g crawl_inv_def)
    have vs: "fset (visited (snd (crawl_step e cfg (w, st))))
                = set (map fst (analyzing_log (snd (crawl_step e cfg (w, st)))))"
      using inv by (simp add: v g crawl_inv_def)
    have lw: "\<forall>a \<in> fset (visited (snd (crawl_step e cfg (w, st)))). lower a = a"
      using inv hd by (simp add: v crawl_inv_def)
    have d0: "0 \<le> depth" using hd by auto
    have qs: "\<forall>(a, d) \<in> set (to_analyze (snd (crawl_step e cfg (w, st)))).
                lower a = a \<and> (d = 0 \<or> (1 \<le> d \<and> d \<le> max_depth cfg))"
      unfolding t using tl l c d0 by auto
    show ?thesis
      unfolding crawl_inv_def using card dist vs lw qs by blast
  qed
qed

lemma crawl_inv_trace:
  "crawl_inv cfg (snd wst) \<Longrightarrow> \<forall>x \<in> set (crawl_trace e cfg wst). crawl_inv cfg (snd x)"
proof (induction e cfg wst rule: crawl_trace.induct)
  case (1 e cfg wst)
  show ?case
  proof (cases "to_analyze (snd wst) \<noteq> [] \<and> int (fcard (visited (snd wst))) < max_addresses cfg")
    case True
    have "crawl_inv cfg (snd (crawl_step e cfg wst))"
      using crawl_inv_step[of cfg "snd wst" e "fst wst"] "1.prems" True by simp
    then have "\<forall>x \<in> set (crawl_trace e cfg (crawl_step e cfg wst)). crawl_inv cfg (snd x)"
      using "1.IH"[OF True] by simp
    then show ?thesis
      using True "1.prems" by (subst crawl_trace.simps) simp
  next
    case False
    then show ?thesis
      using "1.prems" by (subst crawl_trace.simps) auto
  qed
qed

lemma crawl_step_children:
  assumes q: "to_analyze st = (address, depth) # rest"
  shows "\<exists>children. to_analyze (snd (crawl_step e cfg (w, st)))
                       = rest @ map (\<lambda>c. (c, depth + 1)) children
           \<and> (children \<noteq> [] \<longrightarrow> depth + 1 \<le> max_depth cfg)"
proof (cases "address |\<in>| visited st \<or> depth > max_depth cfg")
  case True
  show ?thesis
    by (rule exI[of _ "[]"]) (simp add: crawl_step_skip[OF q True])
next
  case False
  obtain children where
    t: "to_analyze (snd (crawl_step e cfg (w, st))) = rest @ map (\<lambda>c. (c, depth + 1)) children"
    and c: "children \<noteq> [] \<longrightarrow> depth < max_depth cfg"
    using crawl_step_visit_shape[OF q False, of e w] by blast
  show ?thesis
    by (rule exI[of _ children]) (use t c in auto)
qed

lemma crawl_trace_nonempty: "crawl_trace e cfg wst \<noteq> []"
  by (subst crawl_trace.simps) simp

text \<open>
  C5, as stated, fails for a negative \<open>max_addresses\<close>: the loop body never runs,
  \<open>visited\<close> stays empty and its size 0 exceeds \<open>max_addresses\<close>.
\<close>

theorem crawl_visited_bound_counterexample:
  "\<not> int (fcard (visited (snd (crawl crawl_env_example (crawl_example\<lparr>max_addresses := -1\<rparr>) empty_store))))
       \<le> max_addresses (crawl_example\<lparr>max_addresses := -1\<rparr>)"
  by (simp add: crawl_def crawl_loop.simps crawl_example_def seed_queue_def new_crawler_def fcard_fempty)

text \<open>
  C5, amended. In every state the crawl loop passes through, the size of \<open>visited\<close>
  is at most \<open>max(0, max_addresses)\<close>, the analyzed addresses are pairwise distinct
  and are exactly the members of \<open>visited\<close>, and the keys of \<open>visited\<close> and of the
  worklist are in lower case; \<open>crawl\<close> returns the last of these states. In every
  pass, the entries appended to the worklist carry the depth of the entry just popped
  plus 1, and that depth is at most \<open>max_depth\<close>.
\<close>

theorem crawl_invariants:
  "(\<forall>x \<in> set (crawl_trace e cfg (w, seed_queue cfg new_crawler)).
       int (fcard (visited (snd x))) \<le> max 0 (max_addresses cfg)
     \<and> distinct (map fst (analyzing_log (snd x)))
     \<and> fset (visited (snd x)) = set (map fst (analyzing_log (snd x)))
     \<and> (\<forall>a \<in> fset (visited (snd x)). lower a = a)
     \<and> (\<forall>(a, d) \<in> set (to_analyze (snd x)). lower a = a \<and> d \<le> max 0 (max_depth cfg)))
   \<and> crawl e cfg w = last (crawl_trace e cfg (w, seed_queue cfg new_crawler))
   \<and> (to_analyze st = (address, depth) # rest \<longrightarrow>
        (\<exists>children. to_analyze (snd (crawl_step e cfg (w', st)))
                       = rest @ map (\<lambda>c. (c, depth + 1)) children
           \<and> (children \<noteq> [] \<longrightarrow> depth + 1 \<le> max_depth cfg)))"
proof -
  have tr: "\<forall>x \<in> set (crawl_trace e cfg (w, seed_queue cfg new_crawler)).
       int (fcard (visited (snd x))) \<le> max 0 (max_addresses cfg)
     \<and> distinct (map fst (analyzing_log (snd x)))
     \<and> fset (visited (snd x)) = set (map fst (analyzing_log (snd x)))
     \<and> (\<forall>a \<in> fset (visited (snd x)). lower a = a)
     \<and> (\<forall>(a, d) \<in> set (to_analyze (snd x)). lower a = a \<and> d \<le> max 0 (max_depth cfg))"
  proof
    fix x assume x: "x \<in> set (crawl_trace e cfg (w, seed_queue cfg new_crawler))"
    have inv: "crawl_inv cfg (snd x)"
      using crawl_inv_trace[of cfg "(w, seed_queue cfg new_crawler)" e] crawl_inv_init[of cfg] x
      by simp
    have q: "\<forall>(a, d) \<in> set (to_analyze (snd x)). lower a = a \<and> d \<le> max 0 (max_depth cfg)"
      using inv unfolding crawl_inv_def by fastforce
    show "int (fcard (visited (snd x))) \<le> max 0 (max_addresses cfg)
     \<and> distinct (map fst (analyzing_log (snd x)))
     \<and> fset (visited (snd x)) = set (map fst (analyzing_log (snd x)))
     \<and> (\<forall>a \<in> fset (visited (snd x)). lower a = a)
     \<and> (\<forall>(a, d) \<in> set (to_analyze (snd x)). lower a = a \<and> d \<le> max 0 (max_depth cfg))"
      using inv q unfolding crawl_inv_def by blast
  qed
  have la: "crawl e cfg w = last (crawl_trace e cfg (w, seed_queue cfg new_crawler))"
    by (simp add: crawl_def crawl_loop_last)
  have ch: "to_analyze st = (address, depth) # rest \<longrightarrow>
        (\<exists>children. to_analyze (snd (crawl_step e cfg (w', st)))
                       = rest @ map (\<lambda>c. (c, depth + 1)) children
           \<and> (children \<noteq> [] \<longrightarrow> depth + 1 \<le> max_depth cfg))"
    using crawl_step_children[of st address depth rest e cfg w'] by blast
  show ?thesis using tr la ch by blast
qed

lemma crawl_example_log:
  "analyzing_log (snd (crawl crawl_env_example crawl_example empty_store))
     = [(''0xa'', 0), (''0xb'', 1), (''0xc'', 1)]"
  by code_simp

lemma crawl_example_first_pass:
  "to_analyze (snd (crawl_step crawl_env_example crawl_example
                      (empty_store, seed_queue crawl_example new_crawler)))
     = [(''0xb'', 1), (''0xc'', 1)]"
  by code_simp

theorem crawl_invariants_witness:
  "int (fcard (visited (snd (crawl crawl_env_example crawl_example empty_store))))
      \<le> max 0 (max_addresses crawl_example)
   \<and> distinct (map fst (analyzing_log (snd (crawl crawl_env_example crawl_example empty_store))))
   \<and> analyzing_log (snd (crawl crawl_env_example crawl_example empty_store))
       = [(''0xa'', 0), (''0xb'', 1), (''0xc'', 1)]
   \<and> fset (visited (snd (crawl crawl_env_example crawl_example empty_store)))
       = {''0xa'', ''0xb'', ''0xc''}
   \<and> to_analyze (seed_queue crawl_example new_crawler) = [(''0xa'', 0)]
   \<and> to_analyze (snd (crawl_step crawl_env_example crawl_example
                         (empty_store, seed_queue crawl_example new_crawler)))
       = [] @ map (\<lambda>c. (c, 0 + 1)) [''0xb'', ''0xc'']
   \<and> (0::int) + 1 \<le> max_depth crawl_example"
proof -
  note t = crawl_invariants[of crawl_env_example crawl_example empty_store
             "seed_queue crawl_example new_crawler" "''0xa''" 0 "[]" empty_store]
  have mem: "crawl crawl_env_example crawl_example empty_store
               \<in> set (crawl_trace crawl_env_example crawl_example
                        (empty_store, seed_queue crawl_example new_crawler))"
    using t crawl_trace_nonempty[of crawl_env_example crawl_example
            "(empty_store, seed_queue crawl_example new_crawler)"]
    by simp
  have fin: "int (fcard (visited (snd (crawl crawl_env_example crawl_example empty_store))))
        \<le> max 0 (max_addresses crawl_example)
     \<and> distinct (map fst (analyzing_log (snd (crawl crawl_env_example crawl_example empty_store))))
     \<and> fset (visited (snd (crawl crawl_env_example crawl_example empty_store)))
         = set (map fst (analyzing_log (snd (crawl crawl_env_example crawl_example empty_store))))"
    using t mem by blast
  have q: "to_analyze (seed_queue crawl_example new_crawler) = [(''0xa'', 0)]"
    by code_simp
  have d: "(0::int) + 1 \<le> max_depth crawl_example"
    by (simp add: crawl_example_def)
  show ?thesis
    using fin q d crawl_example_log crawl_example_first_pass by simp
qed


section \<open>Properties of the detector scores\<close>























end
